theory Spec2Isabelle
  imports Main "HOL-Library.FSet" "HOL-Library.Multiset"
begin

section \<open>Python values and built-ins used by rreplay.py\<close>

text \<open>
  The exceptions the modelled functions can raise. A function that can raise returns a sum
  whose left side carries the exception; a loop that may not return is a
  \<^theory_text>\<open>partial_function (option)\<close>, where \<open>None\<close> stands for a run that never returns.
\<close>

datatype exn =
    IOError | ParsingError | IndexError | NoOptionError | NoSectionError
  | ValueError | TypeError | UnboundLocalError | OSError

definition newline :: char where
  "newline = CHR 0x0A"

text \<open>\<^verbatim>\<open>str.split(' ')\<close>: cut at every single space; empty pieces are kept.\<close>

fun split_sp :: "string \<Rightarrow> string list" where
  "split_sp [] = [[]]"
| "split_sp (c # cs) =
     (if c = CHR '' '' then [] # split_sp cs
      else (case split_sp cs of [] \<Rightarrow> [[c]] | p # ps \<Rightarrow> (c # p) # ps))"

text \<open>\<^verbatim>\<open>str.strip()\<close>: drop the ASCII white space at both ends.\<close>

definition is_space :: "char \<Rightarrow> bool" where
  "is_space c = (c \<in> {CHR '' '', CHR 0x09, CHR 0x0A, CHR 0x0B, CHR 0x0C, CHR 0x0D})"

definition strip :: "string \<Rightarrow> string" where
  "strip s = rev (dropWhile is_space (rev (dropWhile is_space s)))"

text \<open>\<^verbatim>\<open>xs[i]\<close> for a non-negative literal index: IndexError out of range.\<close>

definition py_nth :: "'a list \<Rightarrow> nat \<Rightarrow> exn + 'a" where
  "py_nth xs i = (if i < length xs then Inr (xs ! i) else Inl IndexError)"

text \<open>
  \<^verbatim>\<open>int(s)\<close> on a string: white space around an optionally signed run of decimal
  digits; anything else is a ValueError (\<open>None\<close> here).
\<close>

definition is_digit :: "char \<Rightarrow> bool" where
  "is_digit c = (48 \<le> (of_char c :: nat) \<and> (of_char c :: nat) \<le> 57)"

definition digits_val :: "string \<Rightarrow> nat" where
  "digits_val ds = foldl (\<lambda>n c. 10 * n + ((of_char c :: nat) - 48)) 0 ds"

definition unsigned_int :: "string \<Rightarrow> int option" where
  "unsigned_int ds =
     (if ds \<noteq> [] \<and> list_all is_digit ds then Some (int (digits_val ds)) else None)"

definition py_int :: "string \<Rightarrow> int option" where
  "py_int s =
     (case strip s of
        [] \<Rightarrow> None
      | c # r \<Rightarrow>
          if c = CHR ''-'' then map_option uminus (unsigned_int r)
          else if c = CHR ''+'' then unsigned_int r
          else unsigned_int (c # r))"

section \<open>The world outside the program\<close>

text \<open>
  A JSON document as \<^verbatim>\<open>json.dump\<close> writes it and \<^verbatim>\<open>json.load\<close> reads it back: an
  object whose values are strings or lists of strings. The json library is not part of
  the repository; a file written by \<^verbatim>\<open>json.dump\<close> is modelled as holding the document.
\<close>

datatype jval = JStr string | JList "string list"

type_synonym doc = "string \<rightharpoonup> jval"

text \<open>
  A parsed INI file as ConfigParser presents it: the sections in file order, each with its
  options.
\<close>

type_synonym ini_section = "string \<times> (string \<times> string) list"

datatype node = Fifo | Doc doc | Ini "ini_section list" | Other

datatype level = Warning | Error

text \<open>
  \<open>files\<close> is the directory the program runs in; \<open>channel\<close> holds the bytes the replay
  engine writes to the FIFO before it closes it; \<open>rrdump_pipe\<close> is the module's global
  (the open handle, as the bytes still to be read); \<open>opens\<close> counts the calls of
  \<^verbatim>\<open>open\<close> on the pipe. \<open>live\<close> is the process table, \<open>spawned\<close> the command lines
  given to \<^verbatim>\<open>subprocess.Popen\<close> for the injector (a handle is the position in that
  list), \<open>exit_status\<close> what \<^verbatim>\<open>wait()\<close> returns for a handle, \<open>waited\<close> the handles
  waited on, \<open>log\<close> the warning and error records (debug records are left out), and
  \<open>stdout\<close> what is printed. \<^verbatim>\<open>util.process_is_alive\<close> is not among the sources: it
  is the parameter \<open>process_is_alive\<close>. \<open>protected\<close> holds the paths the process
  cannot unlink: a directory, or a file in a directory it may not write to.
\<close>

record world =
  files :: "string \<rightharpoonup> node"
  protected :: "string set"
  channel :: string
  rrdump_pipe :: "string option"
  opens :: nat
  live :: "int set"
  process_is_alive :: "string \<Rightarrow> bool"
  spawned :: "string list list"
  exit_status :: "nat \<Rightarrow> int"
  waited :: "nat list"
  log :: "(level \<times> string) list"
  stdout :: "string list"

text \<open>The module \<^verbatim>\<open>consts\<close> is not among the sources; its values are parameters.\<close>

record rr_consts =
  PROC_FILE :: string
  RR_PIPE :: string

definition os_path_exists :: "world \<Rightarrow> string \<Rightarrow> bool" where
  "os_path_exists w p = (files w p \<noteq> None)"

text \<open>
  \<^verbatim>\<open>os.unlink\<close>: OSError when there is nothing at the path, or when the process may
  not remove what is there. \<^verbatim>\<open>os.remove\<close> is the same call.
\<close>

definition os_unlink :: "world \<Rightarrow> string \<Rightarrow> exn + world" where
  "os_unlink w p =
     (if files w p = None \<or> p \<in> protected w then Inl OSError
      else Inr (w\<lparr>files := (files w)(p := None)\<rparr>))"

definition os_remove :: "world \<Rightarrow> string \<Rightarrow> exn + world" where
  "os_remove w p = os_unlink w p"

text \<open>\<^verbatim>\<open>os.kill(n, signal.SIGKILL)\<close>: OSError when there is no such process.\<close>

definition os_kill :: "world \<Rightarrow> int \<Rightarrow> exn + world" where
  "os_kill w n = (if n \<in> live w then Inr (w\<lparr>live := live w - {n}\<rparr>) else Inl OSError)"

definition logger :: "level \<Rightarrow> string \<Rightarrow> world \<Rightarrow> world" where
  "logger l m w = w\<lparr>log := log w @ [(l, m)]\<rparr>"

definition and_then :: "exn + 'a \<Rightarrow> ('a \<Rightarrow> exn + 'b) \<Rightarrow> exn + 'b" where
  "and_then m f = (case m of Inl e \<Rightarrow> Inl e | Inr x \<Rightarrow> f x)"

section \<open>get_message\<close>

text \<open>
  \<^verbatim>\<open>while not os.path.exists(pipe_name): continue\<close>. The model is sequential: nothing
  creates the path between two polls, so the loop returns at once or never.
\<close>

partial_function (option) wait_for_path :: "world \<Rightarrow> string \<Rightarrow> world option" where
  "wait_for_path w p = (if os_path_exists w p then Some w else wait_for_path w p)"

text \<open>\<^verbatim>\<open>rrdump_pipe.read(1)\<close>: the next byte, or the empty string at end of file.\<close>

definition read1 :: "string \<Rightarrow> string \<times> string" where
  "read1 h = (take 1 h, drop 1 h)"

text \<open>
  The read loop of \<^verbatim>\<open>get_message\<close>: \<open>buf\<close> is the buffer, \<open>h\<close> the handle. The
  result is the message and the handle after it.
\<close>

partial_function (option) read_loop :: "string \<Rightarrow> string \<Rightarrow> (string \<times> string) option" where
  "read_loop buf h =
     (let buf' = buf @ fst (read1 h); h' = snd (read1 h) in
      if buf' = [] then Some ([], h')
      else if last buf' = newline then Some (buf', h')
      else read_loop buf' h')"

text \<open>
  The block under \<^verbatim>\<open>if not rrdump_pipe:\<close>: the handle to read from and the world with
  the global set. A file object is always true, so only \<open>None\<close> takes the branch.
\<close>

definition pipe_handle :: "world \<Rightarrow> string \<Rightarrow> (string \<times> world) option" where
  "pipe_handle w pipe_name =
     (case rrdump_pipe w of
        Some h \<Rightarrow> Some (h, w)
      | None \<Rightarrow>
          (case wait_for_path w pipe_name of
             None \<Rightarrow> None
           | Some w' \<Rightarrow>
               Some (channel w', w'\<lparr>rrdump_pipe := Some (channel w'), opens := opens w' + 1\<rparr>)))"

definition get_message :: "world \<Rightarrow> string \<Rightarrow> (string \<times> world) option" where
  "get_message w pipe_name =
     (case pipe_handle w pipe_name of
        None \<Rightarrow> None
      | Some (h, w1) \<Rightarrow>
          (case read_loop [] h of
             None \<Rightarrow> None
           | Some (buf, h') \<Rightarrow> Some (buf, w1\<lparr>rrdump_pipe := Some h'\<rparr>)))"

text \<open>The bytes still to come on the channel: those of the open handle, or all of them.\<close>

definition pending :: "world \<Rightarrow> string" where
  "pending w = (case rrdump_pipe w of Some h \<Rightarrow> h | None \<Rightarrow> channel w)"

text \<open>\<open>n\<close> calls of \<^verbatim>\<open>get_message\<close> one after the other, as the loop of
  \<^verbatim>\<open>process_messages\<close> makes them.\<close>

fun get_messages :: "nat \<Rightarrow> world \<Rightarrow> string \<Rightarrow> (string list \<times> world) option" where
  "get_messages 0 w p = Some ([], w)"
| "get_messages (Suc n) w p =
     (case get_message w p of
        None \<Rightarrow> None
      | Some (m, w1) \<Rightarrow>
          (case get_messages n w1 p of
             None \<Rightarrow> None
           | Some (ms, w2) \<Rightarrow> Some (m # ms, w2)))"

section \<open>get_configuration\<close>

text \<open>
  A subject is a dict with a fixed set of keys; the keys that may be missing
  (\<^verbatim>\<open>mmap_backing_files\<close>, \<^verbatim>\<open>checker\<close>, \<^verbatim>\<open>handle\<close>) are options.
\<close>

record subject =
  event :: string
  rec_pid :: string
  trace_file :: string
  trace_start :: string
  trace_end :: string
  mutator :: string
  injected_state_file :: string
  other_procs :: "string list"
  mmap_backing_files :: "string option"
  checker :: "string option"
  handle :: "nat option"

definition cfg_get :: "ini_section \<Rightarrow> string \<Rightarrow> exn + string" where
  "cfg_get i opt = (case map_of (snd i) opt of None \<Rightarrow> Inl NoOptionError | Some v \<Rightarrow> Inr v)"

text \<open>\<^verbatim>\<open>try: ... cfg.get(i, opt) except ConfigParser.NoOptionError: pass\<close>\<close>

definition cfg_get_optional :: "ini_section \<Rightarrow> string \<Rightarrow> string option" where
  "cfg_get_optional i opt = (case cfg_get i opt of Inl e \<Rightarrow> None | Inr v \<Rightarrow> Some v)"

text \<open>The body of the loop over the sections: one section becomes one subject.\<close>

definition parse_subject :: "ini_section \<Rightarrow> exn + subject" where
  "parse_subject i =
     and_then (cfg_get i ''event'') (\<lambda>ev.
     and_then (cfg_get i ''pid'') (\<lambda>rp.
     and_then (cfg_get i ''trace_file'') (\<lambda>tf.
     and_then (cfg_get i ''trace_start'') (\<lambda>ts.
     and_then (cfg_get i ''trace_end'') (\<lambda>te.
     and_then (cfg_get i ''mutator'') (\<lambda>mu.
       Inr \<lparr>event = ev, rec_pid = rp, trace_file = tf, trace_start = ts, trace_end = te,
            mutator = mu, injected_state_file = ev @ ''_'' @ mu @ ''_state.json'',
            other_procs = [],
            mmap_backing_files = cfg_get_optional i ''mmap_backing_files'',
            checker = cfg_get_optional i ''checker'',
            handle = None\<rparr>))))))"

fun parse_sections :: "ini_section list \<Rightarrow> exn + subject list" where
  "parse_sections [] = Inr []"
| "parse_sections (i # rest) =
     and_then (parse_subject i) (\<lambda>s.
     and_then (parse_sections rest) (\<lambda>ss. Inr (s # ss)))"

text \<open>
  \<^verbatim>\<open>subjects.sort(key=_sort_by_event)\<close>: the key of every element is computed first
  (a ValueError when an event is not a number), then the list is sorted, stably.
\<close>

definition sort_by_event :: "subject list \<Rightarrow> exn + subject list" where
  "sort_by_event ss =
     (if list_all (\<lambda>sub. py_int (event sub) \<noteq> None) ss
      then Inr (sort_key (\<lambda>sub. the (py_int (event sub))) ss)
      else Inl ValueError)"

text \<open>
  The loop that removes the kernel-mapping files. Its body names \<^verbatim>\<open>s\<close>, the variable
  of the parsing loop, not the loop's own \<^verbatim>\<open>i\<close>: \<open>s\<close> is a parameter here.
\<close>

fun remove_brks :: "subject \<Rightarrow> subject list \<Rightarrow> world \<Rightarrow> world" where
  "remove_brks s [] w = w"
| "remove_brks s (i # rest) w =
     remove_brks s rest
       (case os_remove w (rec_pid s @ ''_brks.json'') of Inl e \<Rightarrow> w | Inr w' \<Rightarrow> w')"

definition get_configuration :: "world \<Rightarrow> string \<Rightarrow> exn + (string \<times> subject list \<times> world)" where
  "get_configuration w ini_path =
     (case files w ini_path of
        None \<Rightarrow> Inl IOError
      | Some (Ini cfg) \<Rightarrow>
          and_then (py_nth cfg 0) (\<lambda>rr_dir_section.
          and_then (cfg_get rr_dir_section ''rr_dir'') (\<lambda>rr_dir.
            let sections = drop 1 cfg in
            if length sections = 0 then Inl NoSectionError
            else
              and_then (parse_sections sections) (\<lambda>parsed.
              and_then (sort_by_event parsed) (\<lambda>subjects.
                Inr (rr_dir, subjects, remove_brks (last parsed) subjects w)))))
      | Some _ \<Rightarrow> Inl ParsingError)"

section \<open>create_event_configuration_files\<close>

text \<open>
  The dict of a subject as a JSON object. A subject that holds a process handle cannot be
  serialised: \<^verbatim>\<open>json.dump\<close> raises TypeError, and the file, already opened for
  writing, is left without a document.
\<close>

definition subject_dict :: "subject \<Rightarrow> doc" where
  "subject_dict s =
     (map_of
        [(''event'', JStr (event s)), (''rec_pid'', JStr (rec_pid s)),
         (''trace_file'', JStr (trace_file s)), (''trace_start'', JStr (trace_start s)),
         (''trace_end'', JStr (trace_end s)), (''mutator'', JStr (mutator s)),
         (''injected_state_file'', JStr (injected_state_file s)),
         (''other_procs'', JList (other_procs s))])
     ++ (case mmap_backing_files s of None \<Rightarrow> Map.empty
         | Some v \<Rightarrow> [''mmap_backing_files'' \<mapsto> JStr v])
     ++ (case checker s of None \<Rightarrow> Map.empty | Some v \<Rightarrow> [''checker'' \<mapsto> JStr v])"

definition json_dump :: "subject \<Rightarrow> exn + doc" where
  "json_dump s = (if handle s \<noteq> None then Inl TypeError else Inr (subject_dict s))"

text \<open>\<^verbatim>\<open>with open(path, 'r') as d: json.load(d)\<close>\<close>

definition json_load :: "world \<Rightarrow> string \<Rightarrow> exn + doc" where
  "json_load w path =
     (case files w path of
        None \<Rightarrow> Inl IOError
      | Some (Doc d) \<Rightarrow> Inr d
      | Some _ \<Rightarrow> Inl ValueError)"

definition write_file :: "world \<Rightarrow> string \<Rightarrow> node \<Rightarrow> world" where
  "write_file w path n = w\<lparr>files := (files w)(path \<mapsto> n)\<rparr>"

fun create_event_configuration_files :: "subject list \<Rightarrow> world \<Rightarrow> exn \<times> world + world" where
  "create_event_configuration_files [] w = Inr w"
| "create_event_configuration_files (s # rest) w =
     (case json_dump s of
        Inl e \<Rightarrow> Inl (e, write_file w (injected_state_file s) Other)
      | Inr d \<Rightarrow> create_event_configuration_files rest (write_file w (injected_state_file s) (Doc d)))"

section \<open>process_messages\<close>

text \<open>
  The local state of \<^verbatim>\<open>process_messages\<close>. The subjects are dicts shared with the
  caller's list and changed in place: a position in \<open>subjects\<close> stands for the dict
  there, and \<open>s_var\<close> is the local variable \<^verbatim>\<open>s\<close> (\<open>None\<close> while it is unbound).
\<close>

record pm_state =
  subjects :: "subject list"
  subjects_handled :: "(string \<times> string) fset"
  s_var :: "nat option"
  pm_world :: world

text \<open>\<^verbatim>\<open>while not util.process_is_alive(pid): print('waiting...')\<close>\<close>

partial_function (option) wait_alive :: "world \<Rightarrow> string \<Rightarrow> world option" where
  "wait_alive w pid =
     (if process_is_alive w pid then Some w
      else wait_alive (w\<lparr>stdout := stdout w @ [''waiting...'']\<rparr>) pid)"

definition subjects_for_event :: "pm_state \<Rightarrow> string \<Rightarrow> nat list" where
  "subjects_for_event st ev =
     filter
       (\<lambda>i. event (subjects st ! i) = ev \<and>
            (event (subjects st ! i), mutator (subjects st ! i)) |\<notin>| subjects_handled st)
       [0..<length (subjects st)]"

text \<open>The branch \<^verbatim>\<open>if inject == 'INJECT':\<close>.\<close>

definition inject_branch :: "pm_state \<Rightarrow> nat list \<Rightarrow> string \<Rightarrow> exn \<times> pm_state + pm_state" where
  "inject_branch st sfe pid =
     (if sfe = [] then
        Inr (st\<lparr>pm_world :=
               logger Warning ''We will ignore it but the zombie will remain running''
                 (logger Warning ''rr generated an extra process for which we have no subject''
                    (pm_world st))\<rparr>)
      else
        let k = last sfe;
            s = subjects st ! k;
            st1 = st\<lparr>s_var := Some k,
                     subjects_handled := finsert (event s, mutator s) (subjects_handled st)\<rparr>;
            eventwise_statefile = injected_state_file s
        in
          (case json_load (pm_world st) eventwise_statefile of
             Inl e \<Rightarrow> Inl (e, st1)
           | Inr tmp0 \<Rightarrow>
               let tmp = tmp0(''pid'' \<mapsto> JStr pid);
                   pid_unique_statefile = pid @ ''_'' @ eventwise_statefile;
                   w3 = write_file (pm_world st) pid_unique_statefile (Doc tmp);
                   h = length (spawned w3);
                   w4 = w3\<lparr>spawned :=
                           spawned w3 @ [[''inject'', ''--verbosity=40'', pid_unique_statefile]]\<rparr>
               in Inr (st1\<lparr>subjects := (subjects st)[k := s\<lparr>handle := Some h\<rparr>],
                           pm_world := w4\<rparr>)))"

text \<open>The branch \<^verbatim>\<open>elif inject == 'DONT_INJECT':\<close>.\<close>

definition dont_inject_branch :: "pm_state \<Rightarrow> string \<Rightarrow> exn \<times> pm_state + pm_state" where
  "dont_inject_branch st pid =
     (case s_var st of
        None \<Rightarrow> Inl (UnboundLocalError, st)
      | Some k \<Rightarrow>
          Inr (st\<lparr>subjects :=
                    (subjects st)[k := (subjects st ! k)
                       \<lparr>other_procs := other_procs (subjects st ! k) @ [pid]\<rparr>]\<rparr>))"

text \<open>
  The lines from \<^verbatim>\<open>parts = message.split(' ')\<close> to \<^verbatim>\<open>pid = parts[4]\<close>: the
  decision keyword (the first word without its last character), the event and the pid.
\<close>

definition parse_message :: "string \<Rightarrow> exn + (string \<times> string \<times> string)" where
  "parse_message message =
     (let parts = split_sp message in
      and_then (py_nth parts 0) (\<lambda>p0.
        let inject = butlast (strip p0) in
        and_then (py_nth parts 2) (\<lambda>ev.
        and_then (py_nth parts 4) (\<lambda>pid. Inr (inject, ev, pid)))))"

text \<open>One run of the body of the \<^verbatim>\<open>while\<close> loop.\<close>

definition process_message :: "rr_consts \<Rightarrow> pm_state \<Rightarrow> (exn \<times> pm_state + pm_state) option" where
  "process_message c st =
     (case get_message (pm_world st) (RR_PIPE c) of
        None \<Rightarrow> None
      | Some (message, w1) \<Rightarrow>
          let st1 = st\<lparr>pm_world := w1\<rparr> in
          (case parse_message message of
             Inl e \<Rightarrow> Some (Inl (e, st1))
           | Inr (inject, ev, pid) \<Rightarrow>
               let sfe = subjects_for_event st1 ev in
               (case wait_alive w1 pid of
                  None \<Rightarrow> None
                | Some w2 \<Rightarrow>
                    let st2 = st1\<lparr>pm_world := w2\<rparr> in
                    if inject = ''INJECT'' then Some (inject_branch st2 sfe pid)
                    else if inject = ''DONT_INJECT'' then Some (dont_inject_branch st2 pid)
                    else Some (Inr st2))))"

partial_function (option) process_loop ::
    "rr_consts \<Rightarrow> pm_state \<Rightarrow> (exn \<times> pm_state + pm_state) option" where
  "process_loop c st =
     (if fcard (subjects_handled st) < length (subjects st) then
        (case process_message c st of
           None \<Rightarrow> None
         | Some r \<Rightarrow> (case r of Inl e \<Rightarrow> Some (Inl e) | Inr st' \<Rightarrow> process_loop c st'))
      else Some (Inr st))"

definition process_messages ::
    "rr_consts \<Rightarrow> subject list \<Rightarrow> world \<Rightarrow> (exn \<times> pm_state + pm_state) option" where
  "process_messages c subs w =
     process_loop c \<lparr>subjects = subs, subjects_handled = {||}, s_var = None, pm_world = w\<rparr>"

section \<open>wait_on_handles\<close>

text \<open>
  \<^verbatim>\<open>s['other_procs'][i]\<close>, where \<^verbatim>\<open>i\<close> is an element of that list, a string: a list
  index must be an integer, so the expression raises TypeError.
\<close>

definition list_getitem_str :: "string list \<Rightarrow> string \<Rightarrow> exn + string" where
  "list_getitem_str xs i = Inl TypeError"

text \<open>
  The loop over \<^verbatim>\<open>s['other_procs']\<close>. The argument of the debug record is evaluated
  first; the OSError of \<^verbatim>\<open>os.kill\<close> is caught, the ValueError of \<^verbatim>\<open>int\<close> is not.
  The error records of \<open>wait_on_handles\<close> are kept without the printed form of the
  subject dict.
\<close>

fun kill_other_procs :: "subject \<Rightarrow> string list \<Rightarrow> world \<Rightarrow> exn \<times> world + world" where
  "kill_other_procs s [] w = Inr w"
| "kill_other_procs s (i # rest) w =
     (case list_getitem_str (other_procs s) i of
        Inl e \<Rightarrow> Inl (e, w)
      | Inr x \<Rightarrow>
          (case py_int i of
             None \<Rightarrow> Inl (ValueError, w)
           | Some n \<Rightarrow>
               kill_other_procs s rest (case os_kill w n of Inl e \<Rightarrow> w | Inr w' \<Rightarrow> w')))"

fun wait_on_handles :: "subject list \<Rightarrow> world \<Rightarrow> exn \<times> world + world" where
  "wait_on_handles [] w = Inr w"
| "wait_on_handles (s # rest) w =
     (let ret = (case handle s of Some h \<Rightarrow> exit_status w h | None \<Rightarrow> - 1);
          w1 = (case handle s of
                  Some h \<Rightarrow> w\<lparr>waited := waited w @ [h]\<rparr>
                | None \<Rightarrow> logger Error ''No handle associated with subject'' w)
      in
        (case kill_other_procs s (other_procs s) w1 of
           Inl e \<Rightarrow> Inl e
         | Inr w2 \<Rightarrow>
             wait_on_handles rest
               (if ret \<noteq> 0
                then logger Error
                       (''CrashSimulator supervisor for event:rec_pid '' @ event s @ '':'' @
                        rec_pid s @ '' failed'') w2
                else w2)))"

section \<open>cleanup\<close>

text \<open>
  Each \<^verbatim>\<open>os.unlink\<close> stands under its \<^verbatim>\<open>os.path.exists\<close> test and in no
  \<^verbatim>\<open>try\<close>: an OSError of the first ends the call before the second test.
\<close>

definition cleanup :: "rr_consts \<Rightarrow> world \<Rightarrow> exn \<times> world + world" where
  "cleanup c w =
     (case (if os_path_exists w (PROC_FILE c) then os_unlink w (PROC_FILE c) else Inr w) of
        Inl e \<Rightarrow> Inl (e, w)
      | Inr w1 \<Rightarrow>
          (case (if os_path_exists w1 (RR_PIPE c) then os_unlink w1 (RR_PIPE c) else Inr w1) of
             Inl e \<Rightarrow> Inl (e, w1)
           | Inr w2 \<Rightarrow> Inr w2))"

section \<open>Concrete inputs\<close>

text \<open>
  The inputs the closed theorems below are evaluated at: an empty world in which every
  process is alive, the names of the capture file and of the pipe, configuration files
  with two subject sections, and channels holding lines of the protocol
  \<^verbatim>\<open>INJECT: EVENT: 5 PID: 4242 REC_PID: 100\<close>. \<open>plan_world\<close> is the directory after
  \<open>create_event_configuration_files\<close> has written the subjects, with the pipe in place.
\<close>

definition world0 :: world where
  "world0 =
     \<lparr>files = Map.empty, protected = {}, channel = [], rrdump_pipe = None, opens = 0,
      live = {},
      process_is_alive = (\<lambda>pid. True), spawned = [], exit_status = (\<lambda>h. 0), waited = [],
      log = [], stdout = []\<rparr>"

definition consts0 :: rr_consts where
  "consts0 = \<lparr>PROC_FILE = ''proc.out'', RR_PIPE = ''rrdump_proc.pipe''\<rparr>"

definition two_lines :: world where
  "two_lines =
     world0\<lparr>files := [''rrdump_proc.pipe'' \<mapsto> Fifo],
            channel := ''ab'' @ [newline] @ ''cd'' @ [newline]\<rparr>"

definition test_section :: "string \<Rightarrow> string \<Rightarrow> string \<Rightarrow> string \<Rightarrow> ini_section" where
  "test_section name ev rp mu =
     (name, [(''event'', ev), (''pid'', rp), (''trace_file'', ''t.bin''),
             (''trace_start'', ''0''), (''trace_end'', ''10''), (''mutator'', mu)])"

definition test_subject :: "string \<Rightarrow> string \<Rightarrow> string \<Rightarrow> subject" where
  "test_subject ev rp mu =
     \<lparr>event = ev, rec_pid = rp, trace_file = ''t.bin'', trace_start = ''0'',
      trace_end = ''10'', mutator = mu, injected_state_file = ev @ ''_'' @ mu @ ''_state.json'',
      other_procs = [], mmap_backing_files = None, checker = None, handle = None\<rparr>"

definition main_section :: ini_section where
  "main_section = (''rr_dir'', [(''rr_dir'', ''/traces'')])"

definition dup_world :: world where
  "dup_world =
     world0\<lparr>files := [''config.ini'' \<mapsto>
        Ini [main_section, test_section ''a'' ''5'' ''100'' ''drop_write'',
             test_section ''b'' ''5'' ''200'' ''drop_write'']]\<rparr>"

definition brks_world :: world where
  "brks_world =
     world0\<lparr>files := [''config.ini'' \<mapsto>
        Ini [main_section, test_section ''a'' ''1'' ''100'' ''drop_write'',
             test_section ''b'' ''2'' ''200'' ''drop_write''],
        ''100_brks.json'' \<mapsto> Other, ''200_brks.json'' \<mapsto> Other]\<rparr>"

definition protocol_line :: "string \<Rightarrow> string \<Rightarrow> string \<Rightarrow> string \<Rightarrow> string" where
  "protocol_line decision ev pid rp =
     decision @ '': EVENT: '' @ ev @ '' PID: '' @ pid @ '' REC_PID: '' @ rp @ [newline]"

definition plan_world :: "subject list \<Rightarrow> string \<Rightarrow> world" where
  "plan_world subs bytes =
     (case create_event_configuration_files subs
             (world0\<lparr>files := [''rrdump_proc.pipe'' \<mapsto> Fifo], channel := bytes\<rparr>) of
        Inl (e, w) \<Rightarrow> w
      | Inr w \<Rightarrow> w)"

definition subject5 :: subject where
  "subject5 = test_subject ''5'' ''100'' ''drop_write''"

definition subject7 :: subject where
  "subject7 = test_subject ''7'' ''100'' ''drop_write''"

definition start :: "subject list \<Rightarrow> world \<Rightarrow> pm_state" where
  "start subs w = \<lparr>subjects = subs, subjects_handled = {||}, s_var = None, pm_world = w\<rparr>"


definition dont_inject_first :: world where
  "dont_inject_first =
     plan_world [subject5]
       (protocol_line ''DONT_INJECT'' ''5'' ''4243'' ''100'' @
        protocol_line ''INJECT'' ''5'' ''4242'' ''100'')"

definition sibling_of_next_event :: world where
  "sibling_of_next_event =
     plan_world [subject5, subject7]
       (protocol_line ''INJECT'' ''5'' ''4242'' ''100'' @
        protocol_line ''DONT_INJECT'' ''7'' ''4300'' ''100'' @
        protocol_line ''INJECT'' ''7'' ''4301'' ''100'')"

definition inject_then_sibling :: world where
  "inject_then_sibling =
     plan_world [subject5]
       (protocol_line ''INJECT'' ''5'' ''4242'' ''100'' @
        protocol_line ''DONT_INJECT'' ''5'' ''4243'' ''100'')"

definition subject5_checked :: subject where
  "subject5_checked =
     subject5\<lparr>mmap_backing_files := Some ''maps.json'', checker := Some ''check_write''\<rparr>"

definition orphan_then_match :: world where
  "orphan_then_match =
     plan_world [subject5]
       (protocol_line ''INJECT'' ''7'' ''4242'' ''100'' @
        protocol_line ''INJECT'' ''5'' ''4250'' ''100'')"

definition orphan_after_match :: world where
  "orphan_after_match =
     plan_world [subject5]
       (protocol_line ''INJECT'' ''5'' ''4242'' ''100'' @
        protocol_line ''INJECT'' ''5'' ''4250'' ''100'')"

definition leftovers :: world where
  "leftovers = world0\<lparr>files := [''proc.out'' \<mapsto> Other, ''rrdump_proc.pipe'' \<mapsto> Fifo]\<rparr>"

definition stuck_capture_file :: world where
  "stuck_capture_file =
     world0\<lparr>files := [''proc.out'' \<mapsto> Other], protected := {''proc.out''}\<rparr>"

definition scenario_D :: world where
  "scenario_D =
     world0\<lparr>live := {4243}, exit_status := (\<lambda>h. 1),
            spawned := [[''inject'', ''--verbosity=40'', ''4242_5_drop_write_state.json''],
                        [''inject'', ''--verbosity=40'', ''4301_7_drop_write_state.json'']]\<rparr>"

section \<open>Properties of get_message\<close>

lemma read_loop_eof_empty: "read_loop [] [] = Some ([], [])"
  by (subst read_loop.simps) (simp add: read1_def)

lemma read_loop_stuck:
  assumes "read_loop buf h = Some r"
  shows "newline \<in> set h \<or> (h = [] \<and> (buf = [] \<or> last buf = newline))"
proof (rule read_loop.raw_induct
    [where P = "\<lambda>buf h r. newline \<in> set h \<or> (h = [] \<and> (buf = [] \<or> last buf = newline))",
     OF _ assms])
  fix f :: "string \<Rightarrow> string \<Rightarrow> (string \<times> string) option" and buf h :: string
    and r :: "string \<times> string"
  assume IH: "\<And>buf h r. f buf h = Some r \<Longrightarrow>
      newline \<in> set h \<or> (h = [] \<and> (buf = [] \<or> last buf = newline))"
  assume step: "(let buf' = buf @ fst (read1 h); h' = snd (read1 h) in
      if buf' = [] then Some ([], h')
      else if last buf' = newline then Some (buf', h')
      else f buf' h') = Some r"
  show "newline \<in> set h \<or> (h = [] \<and> (buf = [] \<or> last buf = newline))"
  proof (cases h)
    case Nil
    with step IH [of buf "[]" r] show ?thesis
      by (auto simp: read1_def Let_def split: if_splits)
  next
    case (Cons c cs)
    with step IH [of "buf @ [c]" cs r] show ?thesis
      by (auto simp: read1_def Let_def split: if_splits)
  qed
qed

lemma read_loop_line:
  "newline \<notin> set xs \<Longrightarrow> read_loop buf (xs @ newline # rest) = Some (buf @ xs @ [newline], rest)"
proof (induction xs arbitrary: buf)
  case Nil
  show ?case by (subst read_loop.simps) (simp add: read1_def)
next
  case (Cons c cs)
  then have "read_loop (buf @ [c]) (cs @ newline # rest) = Some ((buf @ [c]) @ cs @ [newline], rest)"
    by simp
  with Cons.prems show ?case
    by (subst read_loop.simps) (auto simp: read1_def Let_def)
qed

lemma wait_for_path_eq:
  "wait_for_path w p = (if os_path_exists w p then Some w else None)"
proof (cases "os_path_exists w p")
  case True
  then show ?thesis by (subst wait_for_path.simps) simp
next
  case False
  have "wait_for_path w p = Some r \<Longrightarrow> os_path_exists w p" for r
    by (rule wait_for_path.raw_induct [where P = "\<lambda>w p r. os_path_exists w p"])
       (auto split: if_splits)
  with False show ?thesis by (cases "wait_for_path w p") auto
qed

lemma takeWhile_until: "x \<notin> set xs \<Longrightarrow> takeWhile (\<lambda>c. c \<noteq> x) (xs @ x # rest) = xs"
  by (induction xs) auto

lemma dropWhile_until: "x \<notin> set xs \<Longrightarrow> dropWhile (\<lambda>c. c \<noteq> x) (xs @ x # rest) = x # rest"
  by (induction xs) auto

lemma read_loop_eq:
  "read_loop [] h =
     (if h = [] then Some ([], [])
      else if newline \<in> set h
      then Some (takeWhile (\<lambda>c. c \<noteq> newline) h @ [newline],
                 tl (dropWhile (\<lambda>c. c \<noteq> newline) h))
      else None)"
proof (cases "h = []")
  case True
  then show ?thesis by (simp add: read_loop_eof_empty)
next
  case False
  show ?thesis
  proof (cases "newline \<in> set h")
    case True
    then obtain xs rest where h: "h = xs @ newline # rest" and xs: "newline \<notin> set xs"
      by (meson split_list_first)
    from xs have "takeWhile (\<lambda>c. c \<noteq> newline) h = xs"
      and "dropWhile (\<lambda>c. c \<noteq> newline) h = newline # rest"
      unfolding h by (simp_all add: takeWhile_until dropWhile_until)
    with read_loop_line [OF xs, of "[]" rest] False True h show ?thesis
      by simp
  next
    case no: False
    from read_loop_stuck [of "[]" h] False no have "read_loop [] h = None"
      by (cases "read_loop [] h") auto
    with False no show ?thesis by simp
  qed
qed

lemma get_message_eq:
  "get_message w p =
     (if rrdump_pipe w = None \<and> \<not> os_path_exists w p then None
      else if pending w = [] then
        Some ([], w\<lparr>rrdump_pipe := Some [],
                    opens := (if rrdump_pipe w = None then opens w + 1 else opens w)\<rparr>)
      else if newline \<in> set (pending w) then
        Some (takeWhile (\<lambda>c. c \<noteq> newline) (pending w) @ [newline],
              w\<lparr>rrdump_pipe := Some (tl (dropWhile (\<lambda>c. c \<noteq> newline) (pending w))),
                 opens := (if rrdump_pipe w = None then opens w + 1 else opens w)\<rparr>)
      else None)"
  by (cases "rrdump_pipe w")
     (auto simp: get_message_def pipe_handle_def pending_def wait_for_path_eq read_loop_eq)

lemma split_at_newline:
  "newline \<in> set h \<Longrightarrow>
   h = takeWhile (\<lambda>c. c \<noteq> newline) h @ newline # tl (dropWhile (\<lambda>c. c \<noteq> newline) h)"
proof -
  assume "newline \<in> set h"
  then obtain xs rest where h: "h = xs @ newline # rest" and xs: "newline \<notin> set xs"
    by (meson split_list_first)
  from xs show ?thesis unfolding h by (simp add: takeWhile_until dropWhile_until)
qed

lemma get_message_Some:
  assumes "get_message w p = Some (m, w')"
  shows "(m = [] \<and> pending w = [] \<or> m \<noteq> [] \<and> last m = newline \<and> newline \<notin> set (butlast m))"
    and "pending w = m @ pending w'"
    and "rrdump_pipe w' \<noteq> None"
    and "opens w' = (if rrdump_pipe w = None then opens w + 1 else opens w)"
    and "w' = w\<lparr>rrdump_pipe := rrdump_pipe w', opens := opens w'\<rparr>"
proof -
  have *: "newline \<notin> set (takeWhile (\<lambda>c. c \<noteq> newline) h)" for h
    by (auto dest: set_takeWhileD)
  from assms show "(m = [] \<and> pending w = [] \<or> m \<noteq> [] \<and> last m = newline \<and> newline \<notin> set (butlast m))"
    by (auto simp: get_message_eq * split: if_splits)
  from assms split_at_newline [of "pending w"] show "pending w = m @ pending w'"
    by (auto simp: get_message_eq pending_def split: if_splits)
  from assms show "rrdump_pipe w' \<noteq> None"
    by (auto simp: get_message_eq split: if_splits)
  from assms show "opens w' = (if rrdump_pipe w = None then opens w + 1 else opens w)"
    by (auto simp: get_message_eq split: if_splits)
  from assms show "w' = w\<lparr>rrdump_pipe := rrdump_pipe w', opens := opens w'\<rparr>"
    by (auto simp: get_message_eq split: if_splits)
qed

lemma get_messages_SucD:
  assumes "get_messages (Suc n) w p = Some (ms, w')"
  obtains m w1 ms1 where "get_message w p = Some (m, w1)"
    and "get_messages n w1 p = Some (ms1, w')" and "ms = m # ms1"
  using assms by (auto split: option.splits)

lemma get_messages_length: "get_messages n w p = Some (ms, w') \<Longrightarrow> length ms = n"
proof (induction n arbitrary: w ms)
  case 0
  then show ?case by simp
next
  case (Suc n)
  from Suc.prems obtain m w1 ms1 where "get_messages n w1 p = Some (ms1, w')" "ms = m # ms1"
    by (rule get_messages_SucD)
  with Suc.IH show ?case by simp
qed

lemma get_messages_shape:
  "get_messages n w p = Some (ms, w') \<Longrightarrow>
   list_all (\<lambda>m. m = [] \<or> last m = newline \<and> newline \<notin> set (butlast m)) ms"
proof (induction n arbitrary: w ms)
  case 0
  then show ?case by simp
next
  case (Suc n)
  from Suc.prems obtain m w1 ms1 where first: "get_message w p = Some (m, w1)"
    and others: "get_messages n w1 p = Some (ms1, w')" and ms: "ms = m # ms1"
    by (rule get_messages_SucD)
  from get_message_Some(1) [OF first]
  have "m = [] \<or> last m = newline \<and> newline \<notin> set (butlast m)" by blast
  with Suc.IH [OF others] ms show ?case by simp
qed

lemma get_messages_pending:
  "get_messages n w p = Some (ms, w') \<Longrightarrow> pending w = concat ms @ pending w'"
proof (induction n arbitrary: w ms)
  case 0
  then show ?case by simp
next
  case (Suc n)
  from Suc.prems obtain m w1 ms1 where first: "get_message w p = Some (m, w1)"
    and others: "get_messages n w1 p = Some (ms1, w')" and ms: "ms = m # ms1"
    by (rule get_messages_SucD)
  from get_message_Some(2) [OF first] Suc.IH [OF others] ms show ?case by simp
qed

lemma get_messages_eof:
  "get_messages n w p = Some (ms, w') \<Longrightarrow> [] \<in> set ms \<Longrightarrow> pending w' = []"
proof (induction n arbitrary: w ms)
  case 0
  then show ?case by simp
next
  case (Suc n)
  from Suc.prems(1) obtain m w1 ms1 where first: "get_message w p = Some (m, w1)"
    and others: "get_messages n w1 p = Some (ms1, w')" and ms: "ms = m # ms1"
    by (rule get_messages_SucD)
  show ?case
  proof (cases "m = []")
    case True
    with get_message_Some(1) [OF first] have "pending w = []" by simp
    with get_message_Some(2) [OF first] have "pending w1 = []" by simp
    with get_messages_pending [OF others] show ?thesis by simp
  next
    case False
    with Suc.prems(2) ms have "[] \<in> set ms1" by auto
    with Suc.IH [OF others] show ?thesis .
  qed
qed

lemma get_messages_open:
  "get_messages n w p = Some (ms, w') \<Longrightarrow> rrdump_pipe w \<noteq> None \<Longrightarrow>
   rrdump_pipe w' \<noteq> None \<and> opens w' = opens w"
proof (induction n arbitrary: w ms)
  case 0
  then show ?case by simp
next
  case (Suc n)
  from Suc.prems(1) obtain m w1 ms1 where first: "get_message w p = Some (m, w1)"
    and others: "get_messages n w1 p = Some (ms1, w')"
    by (rule get_messages_SucD)
  from get_message_Some(3,4) [OF first] Suc.prems(2)
  have "rrdump_pipe w1 \<noteq> None" and "opens w1 = opens w" by simp_all
  with Suc.IH [OF others] show ?case by simp
qed

lemma get_messages_opens_once:
  assumes "get_messages (Suc n) w p = Some (ms, w')"
  shows "rrdump_pipe w' \<noteq> None"
    and "opens w' = (if rrdump_pipe w = None then opens w + 1 else opens w)"
proof -
  from assms obtain m w1 ms1 where first: "get_message w p = Some (m, w1)"
    and others: "get_messages n w1 p = Some (ms1, w')"
    by (rule get_messages_SucD)
  note f = get_message_Some(3,4) [OF first]
  note r = get_messages_open [OF others f(1)]
  from r show "rrdump_pipe w' \<noteq> None" by simp
  from r f(2) show "opens w' = (if rrdump_pipe w = None then opens w + 1 else opens w)"
    by simp
qed

text \<open>
  Claim C8. Every call of \<open>get_message\<close> that returns gives either a complete message,
  ending in the line terminator and holding no other terminator, or the empty string, and
  the empty string only when the channel is closed with nothing left. Over any run of
  successive calls the messages are the consecutive pieces of the channel, and the
  channel is opened once: a call that finds the handle open reads on from it. A call
  returns whenever the pipe is there (or already open) and the channel holds a
  terminator or is closed with nothing left.
\<close>

theorem get_message_line_or_empty:
  "(get_messages (Suc n) w p = Some (ms, w') \<longrightarrow>
      length ms = Suc n \<and>
      list_all (\<lambda>m. m = [] \<or> last m = newline \<and> newline \<notin> set (butlast m)) ms \<and>
      pending w = concat ms @ pending w' \<and>
      ([] \<in> set ms \<longrightarrow> pending w' = []) \<and>
      rrdump_pipe w' \<noteq> None \<and>
      opens w' = (if rrdump_pipe w = None then opens w + 1 else opens w)) \<and>
   ((rrdump_pipe w \<noteq> None \<or> os_path_exists w p) \<and>
    (pending w = [] \<or> newline \<in> set (pending w)) \<longrightarrow>
      (\<exists>m w1. get_message w p = Some (m, w1)))"
proof (intro conjI impI)
  assume a: "get_messages (Suc n) w p = Some (ms, w')"
  from get_messages_length [OF a] show "length ms = Suc n" .
  from get_messages_shape [OF a]
  show "list_all (\<lambda>m. m = [] \<or> last m = newline \<and> newline \<notin> set (butlast m)) ms" .
  from get_messages_pending [OF a] show "pending w = concat ms @ pending w'" .
  from get_messages_eof [OF a] show "pending w' = []" if "[] \<in> set ms" using that .
  from get_messages_opens_once [OF a] show "rrdump_pipe w' \<noteq> None"
    and "opens w' = (if rrdump_pipe w = None then opens w + 1 else opens w)" .
next
  assume "(rrdump_pipe w \<noteq> None \<or> os_path_exists w p) \<and>
    (pending w = [] \<or> newline \<in> set (pending w))"
  then show "\<exists>m w1. get_message w p = Some (m, w1)"
    by (auto simp: get_message_eq)
qed

theorem get_message_line_or_empty_witness:
  "get_messages (Suc 1) two_lines ''rrdump_proc.pipe'' =
     Some ([''ab'' @ [newline], ''cd'' @ [newline]], two_lines\<lparr>rrdump_pipe := Some [], opens := 1\<rparr>) \<and>
   pending two_lines = concat [''ab'' @ [newline], ''cd'' @ [newline]] @ [] \<and>
   opens (two_lines\<lparr>rrdump_pipe := Some [], opens := 1\<rparr>) = opens two_lines + 1 \<and>
   os_path_exists two_lines ''rrdump_proc.pipe'' \<and>
   newline \<in> set (pending two_lines) \<and>
   (\<exists>m w1. get_message two_lines ''rrdump_proc.pipe'' = Some (m, w1))"
proof -
  have run: "get_messages (Suc 1) two_lines ''rrdump_proc.pipe'' =
     Some ([''ab'' @ [newline], ''cd'' @ [newline]], two_lines\<lparr>rrdump_pipe := Some [], opens := 1\<rparr>)"
    by (simp add: get_message_eq two_lines_def world0_def pending_def os_path_exists_def
        newline_def)
  have ready: "os_path_exists two_lines ''rrdump_proc.pipe''"
    by (simp add: two_lines_def world0_def os_path_exists_def)
  have line: "newline \<in> set (pending two_lines)"
    by (simp add: two_lines_def world0_def pending_def)
  from get_message_line_or_empty
    [of 1 two_lines "''rrdump_proc.pipe''" "[''ab'' @ [newline], ''cd'' @ [newline]]"
      "two_lines\<lparr>rrdump_pipe := Some [], opens := 1\<rparr>"]
    run ready line
  show ?thesis by (simp add: pending_def two_lines_def world0_def)
qed

text \<open>
  Claim C10. On a channel that still delivers at least one byte and then closes without a
  line terminator, \<open>get_message\<close> never returns: once a byte is in the buffer the test
  for the empty buffer cannot succeed.
\<close>

theorem get_message_never_returns:
  assumes "pending w \<noteq> []" and "newline \<notin> set (pending w)"
  shows "get_message w p = None"
  using assms by (simp add: get_message_eq)

theorem get_message_never_returns_witness:
  "pending (world0\<lparr>rrdump_pipe := Some ''ab''\<rparr>) \<noteq> [] \<and>
   newline \<notin> set (pending (world0\<lparr>rrdump_pipe := Some ''ab''\<rparr>)) \<and>
   get_message (world0\<lparr>rrdump_pipe := Some ''ab''\<rparr>) ''rrdump_proc.pipe'' = None"
proof -
  have a: "pending (world0\<lparr>rrdump_pipe := Some ''ab''\<rparr>) \<noteq> []"
    by (simp add: pending_def)
  have b: "newline \<notin> set (pending (world0\<lparr>rrdump_pipe := Some ''ab''\<rparr>))"
    by (simp add: pending_def newline_def)
  from get_message_never_returns [OF a b] a b show ?thesis by simp
qed

section \<open>Properties of cleanup\<close>

lemma cleanup_returns_iff:
  "cleanup c w =
     (if os_path_exists w (PROC_FILE c) \<and> PROC_FILE c \<in> protected w then Inl (OSError, w)
      else if os_path_exists w (RR_PIPE c) \<and> RR_PIPE c \<noteq> PROC_FILE c \<and> RR_PIPE c \<in> protected w
      then Inl (OSError, w\<lparr>files := (files w)(PROC_FILE c := None)\<rparr>)
      else Inr (w\<lparr>files := (files w)(PROC_FILE c := None, RR_PIPE c := None)\<rparr>))"
proof -
  have same: "(files w)(p := None) = files w" if "files w p = None" for p
    using that by (auto simp: fun_eq_iff)
  have w: "w\<lparr>files := files w\<rparr> = w" by simp
  have same2: "(files w)(p := None, q := None) = (files w)(p := None)"
    if "files w q = None" for p q
    using that by (auto simp: fun_eq_iff)
  show ?thesis
    by (auto simp: cleanup_def os_path_exists_def os_unlink_def same same2 w)
qed

text \<open>
  Claim C9, amended. When a call of \<open>cleanup\<close> returns, the capture file and the pipe are
  gone, and a second call right after it raises nothing and changes nothing. A call that
  finds both already absent raises nothing and changes nothing: each removal stands
  under its existence test. A call returns whenever the process may remove both paths.
\<close>

theorem cleanup_idempotent:
  "(cleanup c w = Inr w' \<longrightarrow>
      cleanup c w' = Inr w' \<and>
      \<not> os_path_exists w' (PROC_FILE c) \<and> \<not> os_path_exists w' (RR_PIPE c)) \<and>
   (\<not> os_path_exists w (PROC_FILE c) \<and> \<not> os_path_exists w (RR_PIPE c) \<longrightarrow>
      cleanup c w = Inr w) \<and>
   (PROC_FILE c \<notin> protected w \<and> RR_PIPE c \<notin> protected w \<longrightarrow>
      (\<exists>w'. cleanup c w = Inr w'))"
proof (intro conjI impI)
  assume r: "cleanup c w = Inr w'"
  then have w': "w' = w\<lparr>files := (files w)(PROC_FILE c := None, RR_PIPE c := None)\<rparr>"
    by (simp add: cleanup_returns_iff split: if_splits)
  show "\<not> os_path_exists w' (PROC_FILE c)" and "\<not> os_path_exists w' (RR_PIPE c)"
    by (simp_all add: w' os_path_exists_def)
  then have "cleanup c w' = Inr (w'\<lparr>files := (files w')(PROC_FILE c := None, RR_PIPE c := None)\<rparr>)"
    by (simp add: cleanup_returns_iff)
  moreover have "(files w')(PROC_FILE c := None, RR_PIPE c := None) = files w'"
    by (auto simp: w' fun_eq_iff)
  ultimately show "cleanup c w' = Inr w'" by simp
next
  assume a: "\<not> os_path_exists w (PROC_FILE c) \<and> \<not> os_path_exists w (RR_PIPE c)"
  then have "(files w)(PROC_FILE c := None, RR_PIPE c := None) = files w"
    by (auto simp: os_path_exists_def fun_eq_iff)
  with a show "cleanup c w = Inr w" by (simp add: cleanup_returns_iff)
next
  assume "PROC_FILE c \<notin> protected w \<and> RR_PIPE c \<notin> protected w"
  then show "\<exists>w'. cleanup c w = Inr w'" by (simp add: cleanup_returns_iff)
qed

theorem cleanup_idempotent_witness:
  "cleanup consts0 leftovers =
     Inr (leftovers\<lparr>files := (files leftovers)(''proc.out'' := None, ''rrdump_proc.pipe'' := None)\<rparr>) \<and>
   cleanup consts0
     (leftovers\<lparr>files := (files leftovers)(''proc.out'' := None, ''rrdump_proc.pipe'' := None)\<rparr>) =
     Inr (leftovers\<lparr>files := (files leftovers)(''proc.out'' := None, ''rrdump_proc.pipe'' := None)\<rparr>) \<and>
   os_path_exists leftovers ''proc.out'' \<and> os_path_exists leftovers ''rrdump_proc.pipe'' \<and>
   \<not> os_path_exists
     (leftovers\<lparr>files := (files leftovers)(''proc.out'' := None, ''rrdump_proc.pipe'' := None)\<rparr>)
     ''proc.out''"
proof -
  let ?after = "leftovers\<lparr>files := (files leftovers)(''proc.out'' := None, ''rrdump_proc.pipe'' := None)\<rparr>"
  have first: "cleanup consts0 leftovers = Inr ?after"
    by (simp add: cleanup_returns_iff consts0_def leftovers_def world0_def os_path_exists_def)
  have there: "os_path_exists leftovers ''proc.out''" "os_path_exists leftovers ''rrdump_proc.pipe''"
    by (simp_all add: leftovers_def world0_def os_path_exists_def)
  from cleanup_idempotent [of consts0 leftovers ?after] first
  have "cleanup consts0 ?after = Inr ?after" and "\<not> os_path_exists ?after (PROC_FILE consts0)"
    by simp_all
  with first there show ?thesis by (simp add: consts0_def)
qed

text \<open>
  Claim C9 as stated fails where the capture file is there and the process may not remove
  it: the existence test passes, \<^verbatim>\<open>os.unlink\<close> raises OSError, nothing has changed,
  and so the second call raises it again.
\<close>

theorem cleanup_raises_counterexample:
  "os_path_exists stuck_capture_file ''proc.out'' \<and>
   cleanup consts0 stuck_capture_file = Inl (OSError, stuck_capture_file)"
  by (simp add: cleanup_returns_iff consts0_def stuck_capture_file_def world0_def
      os_path_exists_def)

section \<open>Properties of get_configuration\<close>

lemma parse_test_section:
  "parse_subject (test_section name ev rp mu) = Inr (test_subject ev rp mu)"
  by (simp add: parse_subject_def test_section_def test_subject_def cfg_get_def and_then_def
      cfg_get_optional_def)

lemma py_int_5: "py_int ''5'' = Some 5"
  by (simp add: py_int_def strip_def is_space_def unsigned_int_def is_digit_def digits_val_def)

lemma py_int_1: "py_int ''1'' = Some 1"
  by (simp add: py_int_def strip_def is_space_def unsigned_int_def is_digit_def digits_val_def)

lemma py_int_2: "py_int ''2'' = Some 2"
  by (simp add: py_int_def strip_def is_space_def unsigned_int_def is_digit_def digits_val_def)

lemma dup_run:
  "get_configuration dup_world ''config.ini'' =
     Inr (''/traces'',
          [test_subject ''5'' ''100'' ''drop_write'', test_subject ''5'' ''200'' ''drop_write''],
          dup_world)"
  by (simp add: get_configuration_def dup_world_def world0_def main_section_def py_nth_def
      and_then_def cfg_get_def parse_test_section sort_by_event_def py_int_5 os_remove_def
      os_unlink_def os_path_exists_def test_subject_def)

lemma brks_run:
  "get_configuration brks_world ''config.ini'' =
     Inr (''/traces'',
          [test_subject ''1'' ''100'' ''drop_write'', test_subject ''2'' ''200'' ''drop_write''],
          brks_world\<lparr>files := (files brks_world)(''200_brks.json'' := None)\<rparr>)"
  by (simp add: get_configuration_def brks_world_def world0_def main_section_def py_nth_def
      and_then_def cfg_get_def parse_test_section sort_by_event_def py_int_1 py_int_2 os_remove_def
      os_path_exists_def os_unlink_def test_subject_def)

lemma sort_by_event_Inr:
  assumes "sort_by_event parsed = Inr subs"
  shows "list_all (\<lambda>sub. py_int (event sub) \<noteq> None) subs"
    and "sorted (map (\<lambda>sub. the (py_int (event sub))) subs)"
    and "mset subs = mset parsed"
proof -
  from assms have all: "list_all (\<lambda>sub. py_int (event sub) \<noteq> None) parsed"
    and subs: "subs = sort_key (\<lambda>sub. the (py_int (event sub))) parsed"
    by (auto simp: sort_by_event_def split: if_splits)
  from subs show "sorted (map (\<lambda>sub. the (py_int (event sub))) subs)" by simp
  from subs show m: "mset subs = mset parsed" by simp
  from m have "set subs = set parsed" by (rule mset_eq_setD)
  with all show "list_all (\<lambda>sub. py_int (event sub) \<noteq> None) subs"
    by (simp add: list_all_iff)
qed

lemma get_configuration_Inr:
  assumes "get_configuration w p = Inr (rr_dir, subs, w')"
  obtains cfg parsed where "files w p = Some (Ini cfg)"
    and "parse_sections (drop 1 cfg) = Inr parsed"
    and "sort_by_event parsed = Inr subs"
    and "w' = remove_brks (last parsed) subs w"
    and "parsed \<noteq> []"
proof -
  from assms obtain cfg where cfg: "files w p = Some (Ini cfg)"
    by (auto simp: get_configuration_def split: option.splits node.splits)
  from assms cfg obtain parsed where parsed: "parse_sections (drop 1 cfg) = Inr parsed"
    and sorted: "sort_by_event parsed = Inr subs"
    and w': "w' = remove_brks (last parsed) subs w"
    and ne: "drop 1 cfg \<noteq> []"
    by (auto simp: get_configuration_def and_then_def Let_def split: sum.splits if_splits)
  from ne parsed have "parsed \<noteq> []"
    by (cases "drop 1 cfg") (auto simp: and_then_def split: sum.splits)
  with cfg parsed sorted w' show thesis by (rule that)
qed

text \<open>
  Claim C4, amended. A list returned by \<open>get_configuration\<close> is sorted by the numeric
  event id in ascending order, not strictly: subjects of one event stay. It holds the
  subjects parsed from the sections, each as often as parsed, and its (event, mutator)
  keys are pairwise distinct exactly when those of the parsed sections are.
\<close>

theorem get_configuration_sorted:
  assumes "get_configuration w p = Inr (rr_dir, subs, w')"
  shows "list_all (\<lambda>sub. py_int (event sub) \<noteq> None) subs \<and>
     sorted (map (\<lambda>sub. the (py_int (event sub))) subs) \<and>
     (\<exists>cfg parsed. files w p = Some (Ini cfg) \<and> parse_sections (drop 1 cfg) = Inr parsed \<and>
        mset subs = mset parsed \<and>
        distinct (map (\<lambda>sub. (event sub, mutator sub)) subs) =
        distinct (map (\<lambda>sub. (event sub, mutator sub)) parsed))"
proof -
  from assms obtain cfg parsed where cfg: "files w p = Some (Ini cfg)"
    and parsed: "parse_sections (drop 1 cfg) = Inr parsed"
    and sorted: "sort_by_event parsed = Inr subs"
    by (rule get_configuration_Inr)
  note s = sort_by_event_Inr [OF sorted]
  from s(3) have "mset (map (\<lambda>sub. (event sub, mutator sub)) subs) =
      mset (map (\<lambda>sub. (event sub, mutator sub)) parsed)"
    by simp
  then have "distinct (map (\<lambda>sub. (event sub, mutator sub)) subs) =
      distinct (map (\<lambda>sub. (event sub, mutator sub)) parsed)"
    by (rule mset_eq_imp_distinct_iff)
  with s cfg parsed show ?thesis by blast
qed

theorem get_configuration_sorted_witness:
  "get_configuration brks_world ''config.ini'' =
     Inr (''/traces'',
          [test_subject ''1'' ''100'' ''drop_write'', test_subject ''2'' ''200'' ''drop_write''],
          brks_world\<lparr>files := (files brks_world)(''200_brks.json'' := None)\<rparr>) \<and>
   sorted (map (\<lambda>sub. the (py_int (event sub)))
     [test_subject ''1'' ''100'' ''drop_write'', test_subject ''2'' ''200'' ''drop_write''])"
  using get_configuration_sorted [OF brks_run] brks_run by simp

text \<open>
  Claim C4 as stated fails: two sections with event 5 and the same mutator are accepted,
  and the returned list is neither strictly ascending nor free of repeated keys.
\<close>

theorem get_configuration_not_strict_counterexample:
  "get_configuration dup_world ''config.ini'' =
     Inr (''/traces'',
          [test_subject ''5'' ''100'' ''drop_write'', test_subject ''5'' ''200'' ''drop_write''],
          dup_world) \<and>
   \<not> sorted_wrt (<) (map (\<lambda>sub. the (py_int (event sub)))
     [test_subject ''5'' ''100'' ''drop_write'', test_subject ''5'' ''200'' ''drop_write'']) \<and>
   \<not> distinct (map (\<lambda>sub. (event sub, mutator sub))
     [test_subject ''5'' ''100'' ''drop_write'', test_subject ''5'' ''200'' ''drop_write''])"
  by (simp add: dup_run) (simp add: test_subject_def)

lemma remove_brks_files:
  "protected (remove_brks s subs w) = protected w \<and>
   files (remove_brks s subs w) =
     (if subs = [] \<or> rec_pid s @ ''_brks.json'' \<in> protected w then files w
      else (files w)(rec_pid s @ ''_brks.json'' := None))"
proof (induction subs arbitrary: w)
  case Nil
  show ?case by simp
next
  case (Cons i rest)
  let ?w = "case os_remove w (rec_pid s @ ''_brks.json'') of Inl e \<Rightarrow> w | Inr w' \<Rightarrow> w'"
  have p: "protected ?w = protected w"
    by (simp add: os_remove_def os_unlink_def)
  have f: "files ?w =
      (if rec_pid s @ ''_brks.json'' \<in> protected w then files w
       else (files w)(rec_pid s @ ''_brks.json'' := None))"
    by (auto simp: os_remove_def os_unlink_def fun_eq_iff)
  from Cons.IH [of ?w] p f show ?case by (auto simp: fun_eq_iff)
qed

text \<open>
  Claim C5 against the code. The body of the removal loop names the subject parsed last,
  so with recorded pids 100 and 200 only \<^verbatim>\<open>200_brks.json\<close> is removed, once for
  each subject, and \<^verbatim>\<open>100_brks.json\<close> stays.
\<close>

theorem get_configuration_brks_last_only:
  "get_configuration brks_world ''config.ini'' =
     Inr (''/traces'',
          [test_subject ''1'' ''100'' ''drop_write'', test_subject ''2'' ''200'' ''drop_write''],
          brks_world\<lparr>files := (files brks_world)(''200_brks.json'' := None)\<rparr>) \<and>
   files brks_world ''100_brks.json'' = Some Other \<and>
   files (brks_world\<lparr>files := (files brks_world)(''200_brks.json'' := None)\<rparr>)
     ''100_brks.json'' = Some Other"
  by (simp add: brks_run) (simp add: brks_world_def)

section \<open>Properties of create_event_configuration_files\<close>

lemma subject_dict_fields:
  "subject_dict s ''event'' = Some (JStr (event s))"
  "subject_dict s ''rec_pid'' = Some (JStr (rec_pid s))"
  "subject_dict s ''trace_file'' = Some (JStr (trace_file s))"
  "subject_dict s ''trace_start'' = Some (JStr (trace_start s))"
  "subject_dict s ''trace_end'' = Some (JStr (trace_end s))"
  "subject_dict s ''mutator'' = Some (JStr (mutator s))"
  "subject_dict s ''injected_state_file'' = Some (JStr (injected_state_file s))"
  "subject_dict s ''other_procs'' = Some (JList (other_procs s))"
  "subject_dict s ''mmap_backing_files'' = map_option JStr (mmap_backing_files s)"
  "subject_dict s ''checker'' = map_option JStr (checker s)"
  "subject_dict s ''pid'' = None"
  by (simp_all add: subject_dict_def map_add_def split: option.splits)

lemma create_files_Cons:
  "create_event_configuration_files (s # rest) w = Inr w' \<Longrightarrow>
   handle s = None \<and>
   create_event_configuration_files rest
     (write_file w (injected_state_file s) (Doc (subject_dict s))) = Inr w'"
  by (auto simp: json_dump_def split: if_splits)

lemma create_files_other_path:
  "create_event_configuration_files subs w = Inr w' \<Longrightarrow>
   path \<notin> set (map injected_state_file subs) \<Longrightarrow> files w' path = files w path"
proof (induction subs arbitrary: w)
  case Nil
  then show ?case by simp
next
  case (Cons s rest)
  from create_files_Cons [OF Cons.prems(1)]
  have run: "create_event_configuration_files rest
     (write_file w (injected_state_file s) (Doc (subject_dict s))) = Inr w'" by simp
  from Cons.prems(2) have "path \<notin> set (map injected_state_file rest)"
    and "path \<noteq> injected_state_file s" by auto
  with Cons.IH [OF run] show ?case by (simp add: write_file_def)
qed

lemma create_files_last_writer:
  "create_event_configuration_files (earlier @ s # later) w = Inr w' \<Longrightarrow>
   injected_state_file s \<notin> set (map injected_state_file later) \<Longrightarrow>
   json_load w' (injected_state_file s) = Inr (subject_dict s)"
proof (induction earlier arbitrary: w)
  case Nil
  from create_files_Cons [of s later w w'] Nil.prems(1)
  have run: "create_event_configuration_files later
     (write_file w (injected_state_file s) (Doc (subject_dict s))) = Inr w'" by simp
  from create_files_other_path [OF run Nil.prems(2)] show ?case
    by (simp add: json_load_def write_file_def)
next
  case (Cons x earlier)
  from create_files_Cons [of x "earlier @ s # later" w w'] Cons.prems(1)
  have "create_event_configuration_files (earlier @ s # later)
     (write_file w (injected_state_file x) (Doc (subject_dict x))) = Inr w'" by simp
  from Cons.IH [OF this Cons.prems(2)] show ?case .
qed

lemma create_files_returns:
  "list_all (\<lambda>s. handle s = None) subs \<Longrightarrow> \<exists>w'. create_event_configuration_files subs w = Inr w'"
  by (induction subs arbitrary: w) (auto simp: json_dump_def)

text \<open>
  Claim C7, amended. The emitter writes the whole list, and two subjects with the same
  event and mutator share one file name. For a list of subjects without process handles
  (as they are before the matcher runs) the emitter returns, and for every subject of the
  list whose file name no later subject of the list has, reading the file back gives a
  document in which the event, the recorded pid, the trace file, the trace start and end,
  the mutator, and the backing files and the checker if the subject has them, are those
  of the subject. The json library and \<^verbatim>\<open>open\<close> are taken to store and return the
  document without failing.
\<close>

theorem emitter_round_trip:
  assumes "list_all (\<lambda>x. handle x = None) (earlier @ s # later)"
    and "injected_state_file s \<notin> set (map injected_state_file later)"
  shows "\<exists>w' d. create_event_configuration_files (earlier @ s # later) w = Inr w' \<and>
     json_load w' (injected_state_file s) = Inr d \<and>
     d ''event'' = Some (JStr (event s)) \<and>
     d ''rec_pid'' = Some (JStr (rec_pid s)) \<and>
     d ''trace_file'' = Some (JStr (trace_file s)) \<and>
     d ''trace_start'' = Some (JStr (trace_start s)) \<and>
     d ''trace_end'' = Some (JStr (trace_end s)) \<and>
     d ''mutator'' = Some (JStr (mutator s)) \<and>
     d ''mmap_backing_files'' = map_option JStr (mmap_backing_files s) \<and>
     d ''checker'' = map_option JStr (checker s)"
proof -
  from create_files_returns [OF assms(1), of w] obtain w' where
    run: "create_event_configuration_files (earlier @ s # later) w = Inr w'" by blast
  from create_files_last_writer [OF run assms(2)]
  have "json_load w' (injected_state_file s) = Inr (subject_dict s)" .
  with run show ?thesis by (simp add: subject_dict_fields)
qed

theorem emitter_round_trip_witness:
  "list_all (\<lambda>x. handle x = None) ([] @ subject5_checked # [subject7]) \<and>
   injected_state_file subject5_checked \<notin> set (map injected_state_file [subject7]) \<and>
   (\<exists>w' d. create_event_configuration_files ([] @ subject5_checked # [subject7]) world0 = Inr w' \<and>
      json_load w' ''5_drop_write_state.json'' = Inr d \<and>
      d ''event'' = Some (JStr ''5'') \<and> d ''rec_pid'' = Some (JStr ''100'') \<and>
      d ''trace_file'' = Some (JStr ''t.bin'') \<and>
      d ''mutator'' = Some (JStr ''drop_write'') \<and>
      d ''mmap_backing_files'' = Some (JStr ''maps.json'') \<and>
      d ''checker'' = Some (JStr ''check_write''))"
proof -
  have f: "injected_state_file subject5_checked = ''5_drop_write_state.json''"
    "event subject5_checked = ''5''" "rec_pid subject5_checked = ''100''"
    "trace_file subject5_checked = ''t.bin''" "mutator subject5_checked = ''drop_write''"
    "mmap_backing_files subject5_checked = Some ''maps.json''"
    "checker subject5_checked = Some ''check_write''" "handle subject5_checked = None"
    by (simp_all add: subject5_checked_def subject5_def test_subject_def)
  have h: "list_all (\<lambda>x. handle x = None) ([] @ subject5_checked # [subject7])"
    by (simp add: f subject7_def test_subject_def)
  have n: "injected_state_file subject5_checked \<notin> set (map injected_state_file [subject7])"
    by (simp add: f subject7_def test_subject_def)
  from emitter_round_trip [OF h n, of world0] obtain w' d where
    "create_event_configuration_files ([] @ subject5_checked # [subject7]) world0 = Inr w'"
    and "json_load w' (injected_state_file subject5_checked) = Inr d"
    and "d ''event'' = Some (JStr (event subject5_checked))"
    and "d ''rec_pid'' = Some (JStr (rec_pid subject5_checked))"
    and "d ''trace_file'' = Some (JStr (trace_file subject5_checked))"
    and "d ''mutator'' = Some (JStr (mutator subject5_checked))"
    and "d ''mmap_backing_files'' = map_option JStr (mmap_backing_files subject5_checked)"
    and "d ''checker'' = map_option JStr (checker subject5_checked)"
    by blast
  then have "\<exists>w' d. create_event_configuration_files ([] @ subject5_checked # [subject7]) world0
        = Inr w' \<and>
      json_load w' ''5_drop_write_state.json'' = Inr d \<and>
      d ''event'' = Some (JStr ''5'') \<and> d ''rec_pid'' = Some (JStr ''100'') \<and>
      d ''trace_file'' = Some (JStr ''t.bin'') \<and>
      d ''mutator'' = Some (JStr ''drop_write'') \<and>
      d ''mmap_backing_files'' = Some (JStr ''maps.json'') \<and>
      d ''checker'' = Some (JStr ''check_write'')"
    unfolding f by (intro exI [of _ w'] exI [of _ d]) simp
  with h n show ?thesis by blast
qed

text \<open>
  Claim C7 as stated fails on the list the registry returns for two sections with event
  5 and the same mutator: both subjects are written to \<^verbatim>\<open>5_drop_write_state.json\<close>, and
  reading the file of the first back gives the recorded pid 200 of the second, not 100.
\<close>

theorem emitter_overwrite_counterexample:
  "get_configuration dup_world ''config.ini'' =
     Inr (''/traces'',
          [test_subject ''5'' ''100'' ''drop_write'', test_subject ''5'' ''200'' ''drop_write''],
          dup_world) \<and>
   create_event_configuration_files
     [test_subject ''5'' ''100'' ''drop_write'', test_subject ''5'' ''200'' ''drop_write'']
     dup_world =
     Inr (dup_world\<lparr>files := (files dup_world)
            (''5_drop_write_state.json'' \<mapsto>
               Doc (subject_dict (test_subject ''5'' ''200'' ''drop_write'')))\<rparr>) \<and>
   json_load
     (dup_world\<lparr>files := (files dup_world)
            (''5_drop_write_state.json'' \<mapsto>
               Doc (subject_dict (test_subject ''5'' ''200'' ''drop_write'')))\<rparr>)
     (injected_state_file (test_subject ''5'' ''100'' ''drop_write'')) =
     Inr (subject_dict (test_subject ''5'' ''200'' ''drop_write'')) \<and>
   subject_dict (test_subject ''5'' ''200'' ''drop_write'') ''rec_pid'' = Some (JStr ''200'') \<and>
   rec_pid (test_subject ''5'' ''100'' ''drop_write'') = ''100''"
proof -
  have n: "injected_state_file (test_subject ''5'' ''100'' ''drop_write'') = ''5_drop_write_state.json''"
    "injected_state_file (test_subject ''5'' ''200'' ''drop_write'') = ''5_drop_write_state.json''"
    "handle (test_subject ''5'' ''100'' ''drop_write'') = None"
    "handle (test_subject ''5'' ''200'' ''drop_write'') = None"
    "rec_pid (test_subject ''5'' ''100'' ''drop_write'') = ''100''"
    "rec_pid (test_subject ''5'' ''200'' ''drop_write'') = ''200''"
    by (simp_all add: test_subject_def)
  have run: "create_event_configuration_files
     [test_subject ''5'' ''100'' ''drop_write'', test_subject ''5'' ''200'' ''drop_write'']
     dup_world =
     Inr (dup_world\<lparr>files := (files dup_world)
            (''5_drop_write_state.json'' \<mapsto>
               Doc (subject_dict (test_subject ''5'' ''200'' ''drop_write'')))\<rparr>)"
    by (simp add: json_dump_def write_file_def n)
  have rd: "json_load
     (dup_world\<lparr>files := (files dup_world)
            (''5_drop_write_state.json'' \<mapsto>
               Doc (subject_dict (test_subject ''5'' ''200'' ''drop_write'')))\<rparr>)
     (injected_state_file (test_subject ''5'' ''100'' ''drop_write'')) =
     Inr (subject_dict (test_subject ''5'' ''200'' ''drop_write''))"
    by (simp add: json_load_def n)
  from dup_run run rd show ?thesis
    by (simp add: subject_dict_fields n)
qed

section \<open>Properties of process_messages\<close>

lemma wait_alive_eq:
  "wait_alive w pid = (if process_is_alive w pid then Some w else None)"
proof (cases "process_is_alive w pid")
  case True
  then show ?thesis by (subst wait_alive.simps) simp
next
  case False
  have "wait_alive w pid = Some r \<Longrightarrow> process_is_alive w pid" for r
  proof (rule wait_alive.raw_induct [where P = "\<lambda>w pid r. process_is_alive w pid"])
    fix f :: "world \<Rightarrow> string \<Rightarrow> world option" and w pid r
    assume IH: "\<And>w pid r. f w pid = Some r \<Longrightarrow> process_is_alive w pid"
      and step: "(if process_is_alive w pid then Some w
        else f (w\<lparr>stdout := stdout w @ [''waiting...'']\<rparr>) pid) = Some r"
    show "process_is_alive w pid"
    proof (rule ccontr)
      assume "\<not> process_is_alive w pid"
      with step have "f (w\<lparr>stdout := stdout w @ [''waiting...'']\<rparr>) pid = Some r" by simp
      from IH [OF this] \<open>\<not> process_is_alive w pid\<close> show False by simp
    qed
  qed
  with False show ?thesis by (cases "wait_alive w pid") auto
qed

lemma subjects_for_event_world:
  "subjects_for_event (st\<lparr>pm_world := w\<rparr>) ev = subjects_for_event st ev"
  by (simp add: subjects_for_event_def)

lemma process_message_eq:
  assumes "get_message (pm_world st) (RR_PIPE c) = Some (message, w1)"
    and "parse_message message = Inr (inject, ev, pid)"
    and "process_is_alive w1 pid"
  shows "process_message c st =
     Some (if inject = ''INJECT''
           then inject_branch (st\<lparr>pm_world := w1\<rparr>) (subjects_for_event st ev) pid
           else if inject = ''DONT_INJECT'' then dont_inject_branch (st\<lparr>pm_world := w1\<rparr>) pid
           else Inr (st\<lparr>pm_world := w1\<rparr>))"
  using assms
  by (simp add: process_message_def wait_alive_eq subjects_for_event_world Let_def)

lemma process_message_parse_error:
  assumes "get_message (pm_world st) (RR_PIPE c) = Some (message, w1)"
    and "parse_message message = Inl e"
  shows "process_message c st = Some (Inl (e, st\<lparr>pm_world := w1\<rparr>))"
  using assms by (simp add: process_message_def Let_def)

lemma parse_message_error: "parse_message message = Inl e \<Longrightarrow> e = IndexError"
  by (auto simp: parse_message_def and_then_def py_nth_def Let_def split: if_splits sum.splits)

lemma process_loop_step:
  "fcard (subjects_handled st) < length (subjects st) \<Longrightarrow>
   process_message c st = Some (Inr st') \<Longrightarrow> process_loop c st = process_loop c st'"
  by (subst process_loop.simps) simp

lemma process_loop_raise:
  "fcard (subjects_handled st) < length (subjects st) \<Longrightarrow>
   process_message c st = Some (Inl e) \<Longrightarrow> process_loop c st = Some (Inl e)"
  by (subst process_loop.simps) simp

lemma process_loop_done:
  "\<not> fcard (subjects_handled st) < length (subjects st) \<Longrightarrow> process_loop c st = Some (Inr st)"
  by (subst process_loop.simps) simp

lemma parse_protocol_line_INJECT:
  "parse_message (protocol_line ''INJECT'' ''5'' ''4242'' ''100'') = Inr (''INJECT'', ''5'', ''4242'')"
  by (simp add: parse_message_def protocol_line_def and_then_def py_nth_def strip_def
      is_space_def newline_def)

lemma plan_world_one:
  "plan_world [subject5] bytes =
     world0\<lparr>files := [''rrdump_proc.pipe'' \<mapsto> Fifo,
                      ''5_drop_write_state.json'' \<mapsto> Doc (subject_dict subject5)],
            channel := bytes\<rparr>"
  by (simp add: plan_world_def json_dump_def write_file_def subject5_def test_subject_def)

lemma get_message_line:
  assumes "rrdump_pipe w \<noteq> None \<or> os_path_exists w p"
    and "pending w = line @ newline # rest" and "newline \<notin> set line"
  shows "get_message w p =
     Some (line @ [newline],
           w\<lparr>rrdump_pipe := Some rest,
             opens := (if rrdump_pipe w = None then opens w + 1 else opens w)\<rparr>)"
  using assms by (auto simp: get_message_eq takeWhile_until dropWhile_until)

lemma get_message_frame:
  assumes "get_message w p = Some (m, w')"
  shows "files w' = files w" and "live w' = live w" and "spawned w' = spawned w"
    and "log w' = log w" and "process_is_alive w' = process_is_alive w"
proof -
  from get_message_Some(5) [OF assms]
  have eq: "w' = w\<lparr>rrdump_pipe := rrdump_pipe w', opens := opens w'\<rparr>" .
  show "files w' = files w" by (subst eq) simp
  show "live w' = live w" by (subst eq) simp
  show "spawned w' = spawned w" by (subst eq) simp
  show "log w' = log w" by (subst eq) simp
  show "process_is_alive w' = process_is_alive w" by (subst eq) simp
qed

text \<open>
  Claim C6, amended. While some subject is still unmatched, an INJECT line for an event with
  no unmatched subject (once its process is reported alive) logs the two warnings and
  raises nothing. Exactly that line is taken from the channel; the subjects with their
  handles and other processes, the handled keys, the files, the process table and the
  spawned injectors are as before; and the loop goes on with the line after it. Once the
  last subject has been matched the loop has ended: a later line is not read and gives no
  warning.
\<close>

theorem inject_without_pending_subject:
  assumes "fcard (subjects_handled st) < length (subjects st)"
    and "get_message (pm_world st) (RR_PIPE c) = Some (message, w1)"
    and "parse_message message = Inr (''INJECT'', ev, pid)"
    and "subjects_for_event st ev = []"
    and "process_is_alive w1 pid"
  shows "process_message c st =
       Some (Inr (st\<lparr>pm_world := w1\<lparr>log := log (pm_world st) @
         [(Warning, ''rr generated an extra process for which we have no subject''),
          (Warning, ''We will ignore it but the zombie will remain running'')]\<rparr>\<rparr>)) \<and>
     pending (pm_world st) = message @ pending w1 \<and>
     w1 = (pm_world st)\<lparr>rrdump_pipe := rrdump_pipe w1, opens := opens w1\<rparr> \<and>
     files w1 = files (pm_world st) \<and> live w1 = live (pm_world st) \<and>
     spawned w1 = spawned (pm_world st) \<and>
     process_loop c st =
       process_loop c (st\<lparr>pm_world := w1\<lparr>log := log (pm_world st) @
         [(Warning, ''rr generated an extra process for which we have no subject''),
          (Warning, ''We will ignore it but the zombie will remain running'')]\<rparr>\<rparr>)"
proof -
  note fr = get_message_frame [OF assms(2)]
  from process_message_eq [OF assms(2,3,5)] assms(4) fr(4)
  have step: "process_message c st =
       Some (Inr (st\<lparr>pm_world := w1\<lparr>log := log (pm_world st) @
         [(Warning, ''rr generated an extra process for which we have no subject''),
          (Warning, ''We will ignore it but the zombie will remain running'')]\<rparr>\<rparr>))"
    by (simp add: inject_branch_def logger_def)
  from get_message_Some(2,5) [OF assms(2)]
  have "pending (pm_world st) = message @ pending w1"
    and "w1 = (pm_world st)\<lparr>rrdump_pipe := rrdump_pipe w1, opens := opens w1\<rparr>" .
  with step fr(1,2,3) process_loop_step [OF assms(1) step] show ?thesis by blast
qed


lemma protocol_line_split:
  "protocol_line d e p r @ rest =
     (d @ '': EVENT: '' @ e @ '' PID: '' @ p @ '' REC_PID: '' @ r) @ newline # rest"
  by (simp add: protocol_line_def)

lemma plan_world_one_facts:
  "rrdump_pipe (plan_world [subject5] bytes) = None"
  "os_path_exists (plan_world [subject5] bytes) ''rrdump_proc.pipe''"
  "pending (plan_world [subject5] bytes) = bytes"
  "process_is_alive (plan_world [subject5] bytes) pid"
  "files (plan_world [subject5] bytes) ''5_drop_write_state.json'' = Some (Doc (subject_dict subject5))"
  "spawned (plan_world [subject5] bytes) = []"
  "log (plan_world [subject5] bytes) = []"
  "opens (plan_world [subject5] bytes) = 0"
  by (simp_all add: plan_world_one world0_def os_path_exists_def pending_def)

lemma parse_INJECT_7:
  "parse_message (protocol_line ''INJECT'' ''7'' ''4242'' ''100'') = Inr (''INJECT'', ''7'', ''4242'')"
  by (simp add: parse_message_def protocol_line_def and_then_def py_nth_def strip_def
      is_space_def newline_def)


lemma subject5_fields:
  "event subject5 = ''5''" "mutator subject5 = ''drop_write''" "rec_pid subject5 = ''100''"
  "injected_state_file subject5 = ''5_drop_write_state.json''" "other_procs subject5 = []"
  "handle subject5 = None"
  by (simp_all add: subject5_def test_subject_def)







lemma subject7_fields:
  "event subject7 = ''7''" "mutator subject7 = ''drop_write''" "rec_pid subject7 = ''100''"
  "injected_state_file subject7 = ''7_drop_write_state.json''" "other_procs subject7 = []"
  "handle subject7 = None"
  by (simp_all add: subject7_def test_subject_def)

lemma plan_world_two:
  "plan_world [subject5, subject7] bytes =
     world0\<lparr>files := [''rrdump_proc.pipe'' \<mapsto> Fifo,
                      ''5_drop_write_state.json'' \<mapsto> Doc (subject_dict subject5),
                      ''7_drop_write_state.json'' \<mapsto> Doc (subject_dict subject7)],
            channel := bytes\<rparr>"
  by (simp add: plan_world_def json_dump_def write_file_def subject5_fields subject7_fields)

lemma plan_world_two_facts:
  "rrdump_pipe (plan_world [subject5, subject7] bytes) = None"
  "os_path_exists (plan_world [subject5, subject7] bytes) ''rrdump_proc.pipe''"
  "pending (plan_world [subject5, subject7] bytes) = bytes"
  "process_is_alive (plan_world [subject5, subject7] bytes) pid"
  "files (plan_world [subject5, subject7] bytes) ''5_drop_write_state.json'' =
     Some (Doc (subject_dict subject5))"
  "files (plan_world [subject5, subject7] bytes) ''7_drop_write_state.json'' =
     Some (Doc (subject_dict subject7))"
  "spawned (plan_world [subject5, subject7] bytes) = []"
  "opens (plan_world [subject5, subject7] bytes) = 0"
  by (simp_all add: plan_world_two world0_def os_path_exists_def pending_def)

lemma parse_DONT_INJECT_5:
  "parse_message (protocol_line ''DONT_INJECT'' ''5'' ''4243'' ''100'') =
     Inr (''DONT_INJECT'', ''5'', ''4243'')"
  by (simp add: parse_message_def protocol_line_def and_then_def py_nth_def strip_def
      is_space_def newline_def)

lemma parse_DONT_INJECT_7:
  "parse_message (protocol_line ''DONT_INJECT'' ''7'' ''4300'' ''100'') =
     Inr (''DONT_INJECT'', ''7'', ''4300'')"
  by (simp add: parse_message_def protocol_line_def and_then_def py_nth_def strip_def
      is_space_def newline_def)

lemma parse_INJECT_7_4301:
  "parse_message (protocol_line ''INJECT'' ''7'' ''4301'' ''100'') = Inr (''INJECT'', ''7'', ''4301'')"
  by (simp add: parse_message_def protocol_line_def and_then_def py_nth_def strip_def
      is_space_def newline_def)

lemma dont_inject_first_run:
  "process_messages consts0 [subject5] dont_inject_first =
     Some (Inl (UnboundLocalError,
       start [subject5]
         (dont_inject_first\<lparr>rrdump_pipe := Some (protocol_line ''INJECT'' ''5'' ''4242'' ''100''),
                             opens := 1\<rparr>)))"
proof -
  let ?w1 = "dont_inject_first\<lparr>rrdump_pipe := Some (protocol_line ''INJECT'' ''5'' ''4242'' ''100''),
                             opens := 1\<rparr>"
  have msg: "get_message (pm_world (start [subject5] dont_inject_first)) (RR_PIPE consts0) =
      Some (protocol_line ''DONT_INJECT'' ''5'' ''4243'' ''100'', ?w1)"
    using get_message_line [of dont_inject_first "''rrdump_proc.pipe''"
      "''DONT_INJECT: EVENT: 5 PID: 4243 REC_PID: 100''"
      "protocol_line ''INJECT'' ''5'' ''4242'' ''100''"]
    by (simp add: dont_inject_first_def plan_world_one_facts protocol_line_def newline_def
      start_def consts0_def)
  have alive: "process_is_alive ?w1 ''4243''"
    by (simp add: dont_inject_first_def plan_world_one_facts)
  from process_message_eq [OF msg parse_DONT_INJECT_5 alive]
  have step: "process_message consts0 (start [subject5] dont_inject_first) =
      Some (Inl (UnboundLocalError, start [subject5] ?w1))"
    by (simp add: dont_inject_branch_def start_def)
  have "process_messages consts0 [subject5] dont_inject_first =
      process_loop consts0 (start [subject5] dont_inject_first)"
    by (simp add: process_messages_def start_def)
  also have "\<dots> = Some (Inl (UnboundLocalError, start [subject5] ?w1))"
    by (rule process_loop_raise [OF _ step]) (simp add: start_def)
  finally show ?thesis .
qed

lemma sibling_run:
  "process_messages consts0 [subject5, subject7] sibling_of_next_event =
     Some (Inr
       \<lparr>subjects = [subject5\<lparr>other_procs := [''4300''], handle := Some 0\<rparr>,
                    subject7\<lparr>handle := Some 1\<rparr>],
        subjects_handled = {|(''5'', ''drop_write''), (''7'', ''drop_write'')|},
        s_var = Some 1,
        pm_world = sibling_of_next_event
          \<lparr>files := (files sibling_of_next_event)
             (''4242_5_drop_write_state.json'' \<mapsto>
                Doc ((subject_dict subject5)(''pid'' \<mapsto> JStr ''4242'')),
              ''4301_7_drop_write_state.json'' \<mapsto>
                Doc ((subject_dict subject7)(''pid'' \<mapsto> JStr ''4301''))),
           rrdump_pipe := Some [], opens := 1,
           spawned := [[''inject'', ''--verbosity=40'', ''4242_5_drop_write_state.json''],
                       [''inject'', ''--verbosity=40'', ''4301_7_drop_write_state.json'']]\<rparr>\<rparr>)"
proof -
  let ?W = sibling_of_next_event
  let ?l2 = "protocol_line ''DONT_INJECT'' ''7'' ''4300'' ''100''"
  let ?l3 = "protocol_line ''INJECT'' ''7'' ''4301'' ''100''"
  let ?f1 = "(files ?W)(''4242_5_drop_write_state.json'' \<mapsto>
                Doc ((subject_dict subject5)(''pid'' \<mapsto> JStr ''4242'')))"
  let ?sp1 = "[[''inject'', ''--verbosity=40'', ''4242_5_drop_write_state.json'']]"
  let ?st0 = "start [subject5, subject7] ?W"
  let ?w1 = "?W\<lparr>rrdump_pipe := Some (?l2 @ ?l3), opens := 1\<rparr>"
  let ?st1 = "\<lparr>subjects = [subject5\<lparr>handle := Some 0\<rparr>, subject7],
        subjects_handled = {|(''5'', ''drop_write'')|}, s_var = Some 0,
        pm_world = ?W\<lparr>files := ?f1, rrdump_pipe := Some (?l2 @ ?l3), opens := 1,
                          spawned := ?sp1\<rparr>\<rparr>"
  let ?w2 = "?W\<lparr>files := ?f1, rrdump_pipe := Some ?l3, opens := 1, spawned := ?sp1\<rparr>"
  let ?st2 = "\<lparr>subjects = [subject5\<lparr>other_procs := [''4300''], handle := Some 0\<rparr>, subject7],
        subjects_handled = {|(''5'', ''drop_write'')|}, s_var = Some 0, pm_world = ?w2\<rparr>"
  let ?w3 = "?W\<lparr>files := ?f1, rrdump_pipe := Some [], opens := 1, spawned := ?sp1\<rparr>"
  let ?st3 = "\<lparr>subjects = [subject5\<lparr>other_procs := [''4300''], handle := Some 0\<rparr>,
                    subject7\<lparr>handle := Some 1\<rparr>],
        subjects_handled = {|(''5'', ''drop_write''), (''7'', ''drop_write'')|},
        s_var = Some 1,
        pm_world = ?W
          \<lparr>files := (files ?W)
             (''4242_5_drop_write_state.json'' \<mapsto>
                Doc ((subject_dict subject5)(''pid'' \<mapsto> JStr ''4242'')),
              ''4301_7_drop_write_state.json'' \<mapsto>
                Doc ((subject_dict subject7)(''pid'' \<mapsto> JStr ''4301''))),
           rrdump_pipe := Some [], opens := 1,
           spawned := [[''inject'', ''--verbosity=40'', ''4242_5_drop_write_state.json''],
                       [''inject'', ''--verbosity=40'', ''4301_7_drop_write_state.json'']]\<rparr>\<rparr>"
  note facts = sibling_of_next_event_def plan_world_two_facts
  have alive: "process_is_alive (?W\<lparr>files := f, rrdump_pipe := r, opens := n, spawned := sp\<rparr>) pid"
    "process_is_alive (?W\<lparr>rrdump_pipe := r, opens := n\<rparr>) pid" for f r n sp pid
    by (simp_all add: facts)
  have m1: "get_message (pm_world ?st0) (RR_PIPE consts0) =
      Some (protocol_line ''INJECT'' ''5'' ''4242'' ''100'', ?w1)"
    using get_message_line [of ?W "''rrdump_proc.pipe''"
      "''INJECT: EVENT: 5 PID: 4242 REC_PID: 100''" "?l2 @ ?l3"]
    by (simp add: facts protocol_line_def newline_def start_def consts0_def)
  have sfe1: "subjects_for_event ?st0 ''5'' = [0]"
    by (simp add: subjects_for_event_def start_def subject5_fields subject7_fields upt_rec)
  have load1: "json_load ?w1 ''5_drop_write_state.json'' = Inr (subject_dict subject5)"
    by (simp add: json_load_def facts)
  have sp0: "spawned ?W = []" by (simp add: facts)
  from process_message_eq [OF m1 parse_protocol_line_INJECT alive(2)] sfe1 load1 sp0
  have s1: "process_message consts0 ?st0 = Some (Inr ?st1)"
    by (simp add: inject_branch_def start_def subject5_fields write_file_def Let_def)
  have m2: "get_message (pm_world ?st1) (RR_PIPE consts0) = Some (?l2, ?w2)"
    using get_message_line [of "pm_world ?st1" "''rrdump_proc.pipe''"
      "''DONT_INJECT: EVENT: 7 PID: 4300 REC_PID: 100''" ?l3]
    by (simp add: pending_def protocol_line_def newline_def consts0_def)
  from process_message_eq [OF m2 parse_DONT_INJECT_7 alive(1)]
  have s2: "process_message consts0 ?st1 = Some (Inr ?st2)"
    by (simp add: dont_inject_branch_def subject5_fields)
  have m3: "get_message (pm_world ?st2) (RR_PIPE consts0) = Some (?l3, ?w3)"
    using get_message_line [of "pm_world ?st2" "''rrdump_proc.pipe''"
      "''INJECT: EVENT: 7 PID: 4301 REC_PID: 100''" "[]"]
    by (simp add: pending_def protocol_line_def newline_def consts0_def)
  have sfe3: "subjects_for_event ?st2 ''7'' = [1]"
    by (simp add: subjects_for_event_def subject5_fields subject7_fields upt_rec)
  have load3: "json_load ?w3 ''7_drop_write_state.json'' = Inr (subject_dict subject7)"
    by (simp add: json_load_def facts)
  from process_message_eq [OF m3 parse_INJECT_7_4301 alive(1)] sfe3 load3
  have s3: "process_message consts0 ?st2 = Some (Inr ?st3)"
    by (simp add: inject_branch_def subject7_fields write_file_def Let_def finsert_commute)
  have "process_messages consts0 [subject5, subject7] ?W = process_loop consts0 ?st0"
    by (simp add: process_messages_def start_def)
  also have "\<dots> = process_loop consts0 ?st1"
    by (rule process_loop_step [OF _ s1]) (simp add: start_def fcard_fempty)
  also have "\<dots> = process_loop consts0 ?st2"
    by (rule process_loop_step [OF _ s2]) (simp add: fcard_finsert_if fcard_fempty)
  also have "\<dots> = process_loop consts0 ?st3"
    by (rule process_loop_step [OF _ s3]) (simp add: fcard_finsert_if fcard_fempty)
  also have "\<dots> = Some (Inr ?st3)"
    by (rule process_loop_done) (simp add: fcard_finsert_if fcard_fempty)
  finally show ?thesis .
qed

lemma inject_then_sibling_run:
  "process_messages consts0 [subject5] inject_then_sibling =
     Some (Inr
       \<lparr>subjects = [subject5\<lparr>handle := Some 0\<rparr>],
        subjects_handled = {|(''5'', ''drop_write'')|},
        s_var = Some 0,
        pm_world = inject_then_sibling
          \<lparr>files := (files inject_then_sibling)
             (''4242_5_drop_write_state.json'' \<mapsto>
                Doc ((subject_dict subject5)(''pid'' \<mapsto> JStr ''4242''))),
           rrdump_pipe := Some (protocol_line ''DONT_INJECT'' ''5'' ''4243'' ''100''),
           opens := 1,
           spawned := [[''inject'', ''--verbosity=40'', ''4242_5_drop_write_state.json'']]\<rparr>\<rparr>)"
proof -
  let ?W = inject_then_sibling
  let ?l2 = "protocol_line ''DONT_INJECT'' ''5'' ''4243'' ''100''"
  let ?st0 = "start [subject5] ?W"
  let ?w1 = "?W\<lparr>rrdump_pipe := Some ?l2, opens := 1\<rparr>"
  let ?st1 = "\<lparr>subjects = [subject5\<lparr>handle := Some 0\<rparr>],
        subjects_handled = {|(''5'', ''drop_write'')|},
        s_var = Some 0,
        pm_world = ?W
          \<lparr>files := (files ?W)
             (''4242_5_drop_write_state.json'' \<mapsto>
                Doc ((subject_dict subject5)(''pid'' \<mapsto> JStr ''4242''))),
           rrdump_pipe := Some ?l2, opens := 1,
           spawned := [[''inject'', ''--verbosity=40'', ''4242_5_drop_write_state.json'']]\<rparr>\<rparr>"
  note facts = inject_then_sibling_def plan_world_one_facts
  have m1: "get_message (pm_world ?st0) (RR_PIPE consts0) =
      Some (protocol_line ''INJECT'' ''5'' ''4242'' ''100'', ?w1)"
    using get_message_line [of ?W "''rrdump_proc.pipe''"
      "''INJECT: EVENT: 5 PID: 4242 REC_PID: 100''" ?l2]
    by (simp add: facts protocol_line_def newline_def start_def consts0_def)
  have alive: "process_is_alive ?w1 ''4242''" by (simp add: facts)
  have sfe1: "subjects_for_event ?st0 ''5'' = [0]"
    by (simp add: subjects_for_event_def start_def subject5_fields)
  have load1: "json_load ?w1 ''5_drop_write_state.json'' = Inr (subject_dict subject5)"
    by (simp add: json_load_def facts)
  have sp0: "spawned ?W = []" by (simp add: facts)
  from process_message_eq [OF m1 parse_protocol_line_INJECT alive] sfe1 load1 sp0
  have s1: "process_message consts0 ?st0 = Some (Inr ?st1)"
    by (simp add: inject_branch_def start_def subject5_fields write_file_def Let_def)
  have "process_messages consts0 [subject5] ?W = process_loop consts0 ?st0"
    by (simp add: process_messages_def start_def)
  also have "\<dots> = process_loop consts0 ?st1"
    by (rule process_loop_step [OF _ s1]) (simp add: start_def fcard_fempty)
  also have "\<dots> = Some (Inr ?st1)"
    by (rule process_loop_done) (simp add: fcard_finsert_if fcard_fempty)
  finally show ?thesis .
qed

text \<open>
  Claim C1 against the code. Three runs on well-formed channels. (1) The spec's scenarios
  B and C: after the INJECT line has matched the only subject the loop ends, the
  DONT_INJECT line for pid 4243 stays unread in the pipe and \<open>other_procs\<close> stays empty.
  (2) The DONT_INJECT line first: the branch names the variable \<^verbatim>\<open>s\<close>, which no
  INJECT has bound yet, and the run ends in UnboundLocalError. (3) Subjects for events 5
  and 7: the DONT_INJECT line of event 7 arrives before the INJECT line of event 7, and
  its pid 4300 is appended to the subject of event 5, the one injected last.
\<close>

theorem dont_inject_not_matched_by_event:
  "process_messages consts0 [subject5] inject_then_sibling =
     Some (Inr
       \<lparr>subjects = [subject5\<lparr>handle := Some 0\<rparr>],
        subjects_handled = {|(''5'', ''drop_write'')|},
        s_var = Some 0,
        pm_world = inject_then_sibling
          \<lparr>files := (files inject_then_sibling)
             (''4242_5_drop_write_state.json'' \<mapsto>
                Doc ((subject_dict subject5)(''pid'' \<mapsto> JStr ''4242''))),
           rrdump_pipe := Some (protocol_line ''DONT_INJECT'' ''5'' ''4243'' ''100''),
           opens := 1,
           spawned := [[''inject'', ''--verbosity=40'', ''4242_5_drop_write_state.json'']]\<rparr>\<rparr>) \<and>
   other_procs (subject5\<lparr>handle := Some 0\<rparr>) = [] \<and>
   process_messages consts0 [subject5] dont_inject_first =
     Some (Inl (UnboundLocalError,
       start [subject5]
         (dont_inject_first\<lparr>rrdump_pipe := Some (protocol_line ''INJECT'' ''5'' ''4242'' ''100''),
                             opens := 1\<rparr>))) \<and>
   process_messages consts0 [subject5, subject7] sibling_of_next_event =
     Some (Inr
       \<lparr>subjects = [subject5\<lparr>other_procs := [''4300''], handle := Some 0\<rparr>,
                    subject7\<lparr>handle := Some 1\<rparr>],
        subjects_handled = {|(''5'', ''drop_write''), (''7'', ''drop_write'')|},
        s_var = Some 1,
        pm_world = sibling_of_next_event
          \<lparr>files := (files sibling_of_next_event)
             (''4242_5_drop_write_state.json'' \<mapsto>
                Doc ((subject_dict subject5)(''pid'' \<mapsto> JStr ''4242'')),
              ''4301_7_drop_write_state.json'' \<mapsto>
                Doc ((subject_dict subject7)(''pid'' \<mapsto> JStr ''4301''))),
           rrdump_pipe := Some [], opens := 1,
           spawned := [[''inject'', ''--verbosity=40'', ''4242_5_drop_write_state.json''],
                       [''inject'', ''--verbosity=40'', ''4301_7_drop_write_state.json'']]\<rparr>\<rparr>) \<and>
   event (subject5\<lparr>other_procs := [''4300''], handle := Some 0\<rparr>) = ''5''"
  using inject_then_sibling_run dont_inject_first_run sibling_run
  by (simp add: subject5_fields)

lemma parse_INJECT_5_4250:
  "parse_message (protocol_line ''INJECT'' ''5'' ''4250'' ''100'') = Inr (''INJECT'', ''5'', ''4250'')"
  by (simp add: parse_message_def protocol_line_def and_then_def py_nth_def strip_def
      is_space_def newline_def)

theorem inject_without_pending_subject_witness:
  "fcard (subjects_handled (start [subject5] orphan_then_match))
     < length (subjects (start [subject5] orphan_then_match)) \<and>
   parse_message (protocol_line ''INJECT'' ''7'' ''4242'' ''100'') = Inr (''INJECT'', ''7'', ''4242'') \<and>
   subjects_for_event (start [subject5] orphan_then_match) ''7'' = [] \<and>
   process_message consts0 (start [subject5] orphan_then_match) =
     Some (Inr (start [subject5]
       (orphan_then_match
          \<lparr>rrdump_pipe := Some (protocol_line ''INJECT'' ''5'' ''4250'' ''100''), opens := 1,
           log := [(Warning, ''rr generated an extra process for which we have no subject''),
                   (Warning, ''We will ignore it but the zombie will remain running'')]\<rparr>))) \<and>
   process_messages consts0 [subject5] orphan_then_match =
     Some (Inr
       \<lparr>subjects = [subject5\<lparr>handle := Some 0\<rparr>],
        subjects_handled = {|(''5'', ''drop_write'')|},
        s_var = Some 0,
        pm_world = orphan_then_match
          \<lparr>files := (files orphan_then_match)
             (''4250_5_drop_write_state.json'' \<mapsto>
                Doc ((subject_dict subject5)(''pid'' \<mapsto> JStr ''4250''))),
           rrdump_pipe := Some [], opens := 1,
           spawned := [[''inject'', ''--verbosity=40'', ''4250_5_drop_write_state.json'']],
           log := [(Warning, ''rr generated an extra process for which we have no subject''),
                   (Warning, ''We will ignore it but the zombie will remain running'')]\<rparr>\<rparr>)"
proof -
  let ?W = orphan_then_match
  let ?l1 = "protocol_line ''INJECT'' ''7'' ''4242'' ''100''"
  let ?l2 = "protocol_line ''INJECT'' ''5'' ''4250'' ''100''"
  let ?warn = "[(Warning, ''rr generated an extra process for which we have no subject''),
                (Warning, ''We will ignore it but the zombie will remain running'')]"
  let ?st0 = "start [subject5] ?W"
  let ?w1 = "?W\<lparr>rrdump_pipe := Some ?l2, opens := 1\<rparr>"
  let ?st1 = "start [subject5] (?W\<lparr>rrdump_pipe := Some ?l2, opens := 1, log := ?warn\<rparr>)"
  let ?w2 = "?W\<lparr>rrdump_pipe := Some [], opens := 1, log := ?warn\<rparr>"
  let ?st2 = "\<lparr>subjects = [subject5\<lparr>handle := Some 0\<rparr>],
        subjects_handled = {|(''5'', ''drop_write'')|},
        s_var = Some 0,
        pm_world = ?W
          \<lparr>files := (files ?W)
             (''4250_5_drop_write_state.json'' \<mapsto>
                Doc ((subject_dict subject5)(''pid'' \<mapsto> JStr ''4250''))),
           rrdump_pipe := Some [], opens := 1,
           spawned := [[''inject'', ''--verbosity=40'', ''4250_5_drop_write_state.json'']],
           log := ?warn\<rparr>\<rparr>"
  note facts = orphan_then_match_def plan_world_one_facts
  have running: "fcard (subjects_handled ?st0) < length (subjects ?st0)"
    by (simp add: start_def fcard_fempty)
  have m1: "get_message (pm_world ?st0) (RR_PIPE consts0) = Some (?l1, ?w1)"
    using get_message_line [of ?W "''rrdump_proc.pipe''"
        "''INJECT: EVENT: 7 PID: 4242 REC_PID: 100''" ?l2]
    by (simp add: facts protocol_line_def newline_def start_def consts0_def)
  have none: "subjects_for_event ?st0 ''7'' = []"
    by (simp add: subjects_for_event_def start_def subject5_fields)
  have alive1: "process_is_alive ?w1 ''4242''" by (simp add: facts)
  have log0: "log (pm_world ?st0) = []" by (simp add: start_def facts)
  from inject_without_pending_subject [OF running m1 parse_INJECT_7 none alive1] log0
  have s1: "process_message consts0 ?st0 = Some (Inr ?st1)"
    and l1: "process_loop consts0 ?st0 = process_loop consts0 ?st1"
    by (simp_all add: start_def)
  have m2: "get_message (pm_world ?st1) (RR_PIPE consts0) = Some (?l2, ?w2)"
    using get_message_line [of "pm_world ?st1" "''rrdump_proc.pipe''"
        "''INJECT: EVENT: 5 PID: 4250 REC_PID: 100''" "[]"]
    by (simp add: pending_def protocol_line_def newline_def start_def consts0_def)
  have alive2: "process_is_alive ?w2 ''4250''" by (simp add: facts)
  have sfe2: "subjects_for_event ?st1 ''5'' = [0]"
    by (simp add: subjects_for_event_def start_def subject5_fields)
  have load2: "json_load ?w2 ''5_drop_write_state.json'' = Inr (subject_dict subject5)"
    by (simp add: json_load_def facts)
  have sp0: "spawned ?W = []" by (simp add: facts)
  from process_message_eq [OF m2 parse_INJECT_5_4250 alive2] sfe2 load2 sp0
  have s2: "process_message consts0 ?st1 = Some (Inr ?st2)"
    by (simp add: inject_branch_def start_def subject5_fields write_file_def Let_def)
  have "process_messages consts0 [subject5] ?W = process_loop consts0 ?st0"
    by (simp add: process_messages_def start_def)
  also note l1
  also have "process_loop consts0 ?st1 = process_loop consts0 ?st2"
    by (rule process_loop_step [OF _ s2]) (simp add: start_def fcard_fempty)
  also have "\<dots> = Some (Inr ?st2)"
    by (rule process_loop_done) (simp add: fcard_finsert_if fcard_fempty)
  finally have run: "process_messages consts0 [subject5] ?W = Some (Inr ?st2)" .
  from running parse_INJECT_7 none s1 run show ?thesis by simp
qed

text \<open>
  Claim C6 as stated fails after the last match: with one subject, the first INJECT line of
  event 5 matches it and the loop ends; the second INJECT line of event 5, for which no
  subject is left, stays unread in the pipe and no warning is logged.
\<close>

theorem orphan_after_last_match_counterexample:
  "process_messages consts0 [subject5] orphan_after_match =
     Some (Inr
       \<lparr>subjects = [subject5\<lparr>handle := Some 0\<rparr>],
        subjects_handled = {|(''5'', ''drop_write'')|},
        s_var = Some 0,
        pm_world = orphan_after_match
          \<lparr>files := (files orphan_after_match)
             (''4242_5_drop_write_state.json'' \<mapsto>
                Doc ((subject_dict subject5)(''pid'' \<mapsto> JStr ''4242''))),
           rrdump_pipe := Some (protocol_line ''INJECT'' ''5'' ''4250'' ''100''),
           opens := 1,
           spawned := [[''inject'', ''--verbosity=40'', ''4242_5_drop_write_state.json'']]\<rparr>\<rparr>) \<and>
   log (orphan_after_match
          \<lparr>files := (files orphan_after_match)
             (''4242_5_drop_write_state.json'' \<mapsto>
                Doc ((subject_dict subject5)(''pid'' \<mapsto> JStr ''4242''))),
           rrdump_pipe := Some (protocol_line ''INJECT'' ''5'' ''4250'' ''100''),
           opens := 1,
           spawned := [[''inject'', ''--verbosity=40'', ''4242_5_drop_write_state.json'']]\<rparr>) = [] \<and>
   subjects_for_event
       \<lparr>subjects = [subject5\<lparr>handle := Some 0\<rparr>],
        subjects_handled = {|(''5'', ''drop_write'')|},
        s_var = Some 0,
        pm_world = orphan_after_match\<rparr> ''5'' = []"
proof -
  let ?W = orphan_after_match
  let ?l2 = "protocol_line ''INJECT'' ''5'' ''4250'' ''100''"
  let ?st0 = "start [subject5] ?W"
  let ?w1 = "?W\<lparr>rrdump_pipe := Some ?l2, opens := 1\<rparr>"
  let ?st1 = "\<lparr>subjects = [subject5\<lparr>handle := Some 0\<rparr>],
        subjects_handled = {|(''5'', ''drop_write'')|},
        s_var = Some 0,
        pm_world = ?W
          \<lparr>files := (files ?W)
             (''4242_5_drop_write_state.json'' \<mapsto>
                Doc ((subject_dict subject5)(''pid'' \<mapsto> JStr ''4242''))),
           rrdump_pipe := Some ?l2, opens := 1,
           spawned := [[''inject'', ''--verbosity=40'', ''4242_5_drop_write_state.json'']]\<rparr>\<rparr>"
  note facts = orphan_after_match_def plan_world_one_facts
  have m1: "get_message (pm_world ?st0) (RR_PIPE consts0) =
      Some (protocol_line ''INJECT'' ''5'' ''4242'' ''100'', ?w1)"
    using get_message_line [of ?W "''rrdump_proc.pipe''"
      "''INJECT: EVENT: 5 PID: 4242 REC_PID: 100''" ?l2]
    by (simp add: facts protocol_line_def newline_def start_def consts0_def)
  have alive: "process_is_alive ?w1 ''4242''" by (simp add: facts)
  have sfe1: "subjects_for_event ?st0 ''5'' = [0]"
    by (simp add: subjects_for_event_def start_def subject5_fields)
  have load1: "json_load ?w1 ''5_drop_write_state.json'' = Inr (subject_dict subject5)"
    by (simp add: json_load_def facts)
  have sp0: "spawned ?W = []" by (simp add: facts)
  from process_message_eq [OF m1 parse_protocol_line_INJECT alive] sfe1 load1 sp0
  have s1: "process_message consts0 ?st0 = Some (Inr ?st1)"
    by (simp add: inject_branch_def start_def subject5_fields write_file_def Let_def)
  have "process_messages consts0 [subject5] ?W = process_loop consts0 ?st0"
    by (simp add: process_messages_def start_def)
  also have "\<dots> = process_loop consts0 ?st1"
    by (rule process_loop_step [OF _ s1]) (simp add: start_def fcard_fempty)
  also have "\<dots> = Some (Inr ?st1)"
    by (rule process_loop_done) (simp add: fcard_finsert_if fcard_fempty)
  finally have run: "process_messages consts0 [subject5] ?W = Some (Inr ?st1)" .
  have "log ?W = []" by (simp add: facts)
  moreover have "subjects_for_event
       \<lparr>subjects = [subject5\<lparr>handle := Some 0\<rparr>],
        subjects_handled = {|(''5'', ''drop_write'')|},
        s_var = Some 0, pm_world = ?W\<rparr> ''5'' = []"
    by (simp add: subjects_for_event_def subject5_fields)
  ultimately show ?thesis using run by simp
qed

section \<open>Properties of wait_on_handles\<close>

lemma kill_other_procs_nonempty:
  "procs \<noteq> [] \<Longrightarrow> kill_other_procs s procs w = Inl (TypeError, w)"
  by (cases procs) (simp_all add: list_getitem_str_def)

lemma wait_on_handles_raises:
  assumes "other_procs s \<noteq> []"
  shows "wait_on_handles (s # rest) w =
     Inl (TypeError,
          case handle s of
            Some h \<Rightarrow> w\<lparr>waited := waited w @ [h]\<rparr>
          | None \<Rightarrow> logger Error ''No handle associated with subject'' w)"
  using assms by (simp add: kill_other_procs_nonempty Let_def)

lemma wait_on_handles_no_siblings:
  assumes "list_all (\<lambda>s. other_procs s = []) subs"
  shows "\<exists>w'. wait_on_handles subs w = Inr w' \<and>
     waited w' = waited w @ List.map_filter handle subs \<and> live w' = live w"
  using assms
proof (induction subs arbitrary: w)
  case Nil
  then show ?case by simp
next
  case (Cons s rest)
  from Cons.prems have s: "other_procs s = []" and rest: "list_all (\<lambda>s. other_procs s = []) rest"
    by simp_all
  show ?case
  proof (cases "handle s")
    case None
    let ?w1 = "logger Error ''No handle associated with subject'' w"
    let ?w2 = "logger Error
      (''CrashSimulator supervisor for event:rec_pid '' @ event s @ '':'' @ rec_pid s @ '' failed'')
      ?w1"
    from Cons.IH [OF rest, of ?w2] obtain w' where
      "wait_on_handles rest ?w2 = Inr w'"
      "waited w' = waited ?w2 @ List.map_filter handle rest" "live w' = live ?w2"
      by blast
    with None s show ?thesis
      by (simp add: Let_def logger_def)
  next
    case (Some h)
    let ?w1 = "w\<lparr>waited := waited w @ [h]\<rparr>"
    let ?w2 = "if exit_status w h \<noteq> 0 then logger Error
      (''CrashSimulator supervisor for event:rec_pid '' @ event s @ '':'' @ rec_pid s @ '' failed'')
      ?w1 else ?w1"
    from Cons.IH [OF rest, of ?w2] obtain w' where
      "wait_on_handles rest ?w2 = Inr w'"
      "waited w' = waited ?w2 @ List.map_filter handle rest" "live w' = live ?w2"
      by blast
    with Some s show ?thesis
      by (simp add: Let_def logger_def)
  qed
qed

text \<open>
  Claim C3 against the code. The spec's scenario D with a second subject behind it: the
  first supervisor has exited with status 1 and pid 4243 is a tracked sibling. The debug
  record of the kill loop indexes the list \<^verbatim>\<open>s['other_procs']\<close> with its own element,
  a string, so \<open>wait_on_handles\<close> ends in TypeError there: pid 4243 is still alive, the
  failure of the first supervisor is not reported, and the second subject is not waited
  on.
\<close>

theorem wait_on_handles_stops_at_first_sibling:
  "wait_on_handles
     [subject5\<lparr>other_procs := [''4243''], handle := Some 0\<rparr>, subject7\<lparr>handle := Some 1\<rparr>]
     scenario_D =
     Inl (TypeError, scenario_D\<lparr>waited := [0]\<rparr>) \<and>
   live (scenario_D\<lparr>waited := [0]\<rparr>) = {4243} \<and>
   log (scenario_D\<lparr>waited := [0]\<rparr>) = [] \<and>
   exit_status scenario_D 0 = 1"
proof -
  have ne: "other_procs (subject5\<lparr>other_procs := [''4243''], handle := Some 0\<rparr>) \<noteq> []"
    by simp
  have "wait_on_handles
     [subject5\<lparr>other_procs := [''4243''], handle := Some 0\<rparr>, subject7\<lparr>handle := Some 1\<rparr>]
     scenario_D = Inl (TypeError, scenario_D\<lparr>waited := waited scenario_D @ [0]\<rparr>)"
    by (subst wait_on_handles_raises [OF ne]) simp
  moreover have "waited scenario_D = []" and "live scenario_D = {4243}"
    and "log scenario_D = []" and "exit_status scenario_D 0 = 1"
    by (simp_all add: scenario_D_def world0_def)
  ultimately show ?thesis by simp
qed

end
